theory Spec2Isabelle
  imports Main
begin

section \<open>tsh: the job table and the job-control kernel of \<^verbatim>\<open>tsh.c\<close>\<close>

text \<open>
  The development embeds the job list helpers, the parent and child halves of \<^verbatim>\<open>eval\<close>,
  the builtins \<^verbatim>\<open>fg\<close> and \<^verbatim>\<open>bg\<close>, and the three signal handlers of \<^verbatim>\<open>tsh.c\<close>.
  C \<^verbatim>\<open>int\<close> and \<^verbatim>\<open>pid_t\<close> values are modelled as \<open>int\<close>. The arithmetic of the program
  itself (the job id counter moves by one per launched job) takes them nowhere near
  \<open>2 ^ 31\<close> in a run of feasible length, so its wrap-around is not written out. The one
  value that the user chooses freely, the number \<^verbatim>\<open>atoi\<close> reads from the argument of
  \<^verbatim>\<open>fg\<close> and \<^verbatim>\<open>bg\<close>, is cut to 32 bits as the C library does.
\<close>

subsection \<open>Manifest constants\<close>

abbreviation (input) MAXJOBS :: int where "MAXJOBS \<equiv> 16"

text \<open>\<^verbatim>\<open>#define MAXJID 1<<16\<close>: defined by the source, used by none of its functions.\<close>

definition MAXJID :: int where "MAXJID = 2 ^ 16"

abbreviation (input) UNDEF :: int where "UNDEF \<equiv> 0"
abbreviation (input) FG :: int where "FG \<equiv> 1"
abbreviation (input) BG :: int where "BG \<equiv> 2"
abbreviation (input) ST :: int where "ST \<equiv> 3"

text \<open>Signal numbers, as Linux defines them.\<close>

abbreviation (input) SIGINT :: int where "SIGINT \<equiv> 2"
abbreviation (input) SIGCONT :: int where "SIGCONT \<equiv> 18"
abbreviation (input) SIGTSTP :: int where "SIGTSTP \<equiv> 20"

subsection \<open>Data\<close>

text \<open>\<^verbatim>\<open>struct job_t\<close>. The character array \<^verbatim>\<open>cmdline\<close> is the C string it holds.\<close>

record job_t =
  pid :: int
  jid :: int
  state :: int
  cmdline :: string

text \<open>
  The globals of the program and what it does to the outside world.
  \<^item> \<open>job_list\<close> is the array \<^verbatim>\<open>job_list[MAXJOBS]\<close>; a \<^verbatim>\<open>struct job_t *\<close> into it is
    the index of the slot, \<open>None\<close> for \<^verbatim>\<open>NULL\<close>. The loops \<^verbatim>\<open>for (i = 0; i < MAXJOBS; i++)\<close>
    walk the list from its head.
  \<^item> \<open>sio\<close> collects the bytes written to descriptor 1 by \<^verbatim>\<open>sio_puts\<close> (an unbuffered
    \<^verbatim>\<open>write\<close>), \<open>stdio\<close> the bytes handed to \<^verbatim>\<open>printf\<close>.
  \<^item> \<open>kills\<close> records the calls \<^verbatim>\<open>kill(pid, sig)\<close> in order.
\<close>

record shell =
  job_list :: "job_t list"
  nextjid :: int
  verbose :: bool
  sio :: string
  stdio :: string
  kills :: "(int \<times> int) list"

text \<open>What stops the process in the middle of a function.\<close>

datatype fault = NullDeref

subsection \<open>Reentrant output: \<^verbatim>\<open>sio_ltoa\<close>, \<^verbatim>\<open>sio_puts\<close>, \<^verbatim>\<open>sio_putl\<close>\<close>

text \<open>C's \<^verbatim>\<open>%\<close> and \<^verbatim>\<open>/\<close> on a \<^verbatim>\<open>long\<close> and the positive base 10: truncation towards zero.\<close>

definition c_rem10 :: "int \<Rightarrow> int" where
  "c_rem10 v = (if v < 0 then - ((- v) mod 10) else v mod 10)"

definition c_quot10 :: "int \<Rightarrow> int" where
  "c_quot10 v = (if v < 0 then - ((- v) div 10) else v div 10)"

text \<open>
  The \<^verbatim>\<open>do ... while ((v /= b) > 0)\<close> loop of \<^verbatim>\<open>sio_ltoa\<close>, for the base \<^verbatim>\<open>b = 10\<close> of
  its only caller \<^verbatim>\<open>sio_putl\<close>. It produces the characters in the order the loop stores
  them (least significant first).
\<close>

function sio_ltoa_loop :: "int \<Rightarrow> string" where
  "sio_ltoa_loop v =
     (let c = c_rem10 v;
          ch = (if c < 10 then char_of (c + 48) else char_of (c - 10 + 97))
      in if c_quot10 v > 0 then ch # sio_ltoa_loop (c_quot10 v) else [ch])"
  by pat_completeness auto
termination
  by (relation "measure nat") (auto simp: c_quot10_def split: if_splits)

declare sio_ltoa_loop.simps [simp del]

definition sio_ltoa :: "int \<Rightarrow> string" where
  "sio_ltoa v = rev (sio_ltoa_loop v)"

text \<open>The conversion \<^verbatim>\<open>%d\<close> of \<^verbatim>\<open>printf\<close>.\<close>

definition printf_d :: "int \<Rightarrow> string" where
  "printf_d v = (if v < 0 then CHR ''-'' # sio_ltoa (- v) else sio_ltoa v)"

definition sio_puts :: "string \<Rightarrow> shell \<Rightarrow> shell" where
  "sio_puts str s = s\<lparr>sio := sio s @ str\<rparr>"

definition sio_putl :: "int \<Rightarrow> shell \<Rightarrow> shell" where
  "sio_putl v s = sio_puts (sio_ltoa v) s"

subsection \<open>Job list helpers\<close>

text \<open>
  The scan shared by the helpers: the first index whose slot satisfies the test, as
  \<^verbatim>\<open>for (i = 0; i < MAXJOBS; i++) if (...) return ...\<close> finds it.
\<close>

fun first_slot :: "(job_t \<Rightarrow> bool) \<Rightarrow> job_t list \<Rightarrow> nat option" where
  "first_slot P [] = None"
| "first_slot P (j # js) = (if P j then Some 0 else map_option Suc (first_slot P js))"

definition clearjob :: "job_t \<Rightarrow> job_t" where
  "clearjob job = job\<lparr>pid := 0, jid := 0, state := UNDEF, cmdline := []\<rparr>"

definition initjobs :: "job_t list \<Rightarrow> job_t list" where
  "initjobs jl = map clearjob jl"

fun maxjid_loop :: "job_t list \<Rightarrow> int \<Rightarrow> int" where
  "maxjid_loop [] mx = mx"
| "maxjid_loop (j # js) mx = maxjid_loop js (if jid j > mx then jid j else mx)"

definition maxjid :: "job_t list \<Rightarrow> int" where
  "maxjid jl = maxjid_loop jl 0"

text \<open>
  \<^verbatim>\<open>addjob\<close> returns 1 or 0 and the state it leaves. The wrap of the counter compares
  with \<^verbatim>\<open>MAXJOBS\<close>, as the source does.
\<close>

definition addjob :: "int \<Rightarrow> int \<Rightarrow> string \<Rightarrow> shell \<Rightarrow> int \<times> shell" where
  "addjob p st cl s =
     (if p < 1 then (0, s)
      else case first_slot (\<lambda>j. pid j = 0) (job_list s) of
        Some i \<Rightarrow>
          (let job = ((job_list s) ! i)\<lparr>pid := p, state := st, jid := nextjid s, cmdline := cl\<rparr>;
               n = nextjid s + 1;
               n' = (if n > MAXJOBS then 1 else n);
               msg = (if verbose s
                      then ''Added job ['' @ printf_d (jid job) @ ''] '' @ printf_d (pid job)
                             @ '' '' @ cmdline job @ ''\<newline>''
                      else [])
           in (1, s\<lparr>job_list := (job_list s)[i := job], nextjid := n', stdio := stdio s @ msg\<rparr>))
      | None \<Rightarrow> (0, s\<lparr>stdio := stdio s @ ''Tried to create too many jobs\<newline>''\<rparr>))"

definition deletejob :: "int \<Rightarrow> shell \<Rightarrow> int \<times> shell" where
  "deletejob p s =
     (if p < 1 then (0, s)
      else case first_slot (\<lambda>j. pid j = p) (job_list s) of
        Some i \<Rightarrow>
          (let jl = (job_list s)[i := clearjob ((job_list s) ! i)]
           in (1, s\<lparr>job_list := jl, nextjid := maxjid jl + 1\<rparr>))
      | None \<Rightarrow> (0, s))"

definition fgpid :: "job_t list \<Rightarrow> int" where
  "fgpid jl = (case first_slot (\<lambda>j. state j = FG) jl of Some i \<Rightarrow> pid (jl ! i) | None \<Rightarrow> 0)"

definition getjobpid :: "job_t list \<Rightarrow> int \<Rightarrow> nat option" where
  "getjobpid jl p = (if p < 1 then None else first_slot (\<lambda>j. pid j = p) jl)"

definition getjobjid :: "job_t list \<Rightarrow> int \<Rightarrow> nat option" where
  "getjobjid jl n = (if n < 1 then None else first_slot (\<lambda>j. jid j = n) jl)"

definition pid2jid :: "job_t list \<Rightarrow> int \<Rightarrow> int" where
  "pid2jid jl p =
     (if p < 1 then 0
      else case first_slot (\<lambda>j. pid j = p) jl of Some i \<Rightarrow> jid (jl ! i) | None \<Rightarrow> 0)"

subsection \<open>The dispatcher \<^verbatim>\<open>eval\<close>\<close>

text \<open>
  \<^verbatim>\<open>struct cmdline_tokens\<close> as \<^verbatim>\<open>parseline\<close> fills it: \<open>argv\<close> holds the arguments before
  the terminating \<^verbatim>\<open>NULL\<close>, and \<^verbatim>\<open>argc\<close> is their number.
\<close>

datatype builtins_t = BUILTIN_NONE | BUILTIN_QUIT | BUILTIN_JOBS | BUILTIN_BG | BUILTIN_FG

record cmdline_tokens =
  argv :: "string list"
  infile :: "string option"
  outfile :: "string option"
  builtins :: builtins_t

definition argc :: "cmdline_tokens \<Rightarrow> int" where
  "argc tok = int (length (argv tok))"

text \<open>
  The child of the fork, from the redirections on. What the operating system answers is
  a parameter: \<open>open_in\<close> and \<open>open_out\<close> are \<open>None\<close> when \<^verbatim>\<open>open\<close> succeeds and the
  text of \<^verbatim>\<open>strerror(errno)\<close> when it fails; \<open>exec_fails\<close> tells whether \<^verbatim>\<open>execve\<close>
  returns. The result is what the child has written to its descriptor 1 under the
  shell's code and how it leaves that code.
\<close>

datatype child_end = Exec_replaced_image | Exit int

definition unix_error :: "string \<Rightarrow> string \<Rightarrow> string \<times> child_end" where
  "unix_error msg err = (msg @ '': '' @ err @ ''\<newline>'', Exit 1)"

definition eval_child ::
  "cmdline_tokens \<Rightarrow> string option \<Rightarrow> string option \<Rightarrow> bool \<Rightarrow> fault + string \<times> child_end" where
  "eval_child tok open_in open_out exec_fails =
     (case (infile tok, open_in) of
        (Some _, Some err) \<Rightarrow> Inr (unix_error ''Open error'' err)
      | _ \<Rightarrow>
       (case (outfile tok, open_out) of
          (Some _, Some err) \<Rightarrow> Inr (unix_error ''Open error'' err)
        | _ \<Rightarrow>
          if exec_fails
          then (case argv tok of
                  [] \<Rightarrow> Inl NullDeref
                | a0 # _ \<Rightarrow> Inr (a0 @ ''s: Command not found.\<newline>'', Exit 0))
          else Inr ([], Exec_replaced_image)))"

text \<open>
  The parent of the fork, from \<^verbatim>\<open>addjob\<close> to its first test of the wait loop
  \<^verbatim>\<open>while (pid == fgpid(job_list)) Sigsuspend(&prev)\<close>: \<open>Suspended\<close> when the test holds
  and the shell sleeps until a handler has run, \<open>Returned\<close> when \<^verbatim>\<open>eval\<close> returns.
  \<open>bg\<close> is the value of \<^verbatim>\<open>parseline\<close> (1 for a trailing \<^verbatim>\<open>&\<close>, 0 otherwise).
\<close>

datatype wait = Suspended | Returned

definition eval_parent :: "int \<Rightarrow> int \<Rightarrow> string \<Rightarrow> shell \<Rightarrow> shell \<times> wait" where
  "eval_parent p bg cl s =
     (let s1 = snd (addjob p (bg + 1) cl s);
          j = pid2jid (job_list s1) p
      in if bg = 0
         then (s1, if p = fgpid (job_list s1) then Suspended else Returned)
         else (sio_puts ''\<newline>'' (sio_puts cl (sio_puts '') '' (sio_putl p
                 (sio_puts ''] ('' (sio_putl j (sio_puts ''['' s1)))))), Returned))"

text \<open>The test the wait loop of \<^verbatim>\<open>eval\<close> repeats after each wake-up.\<close>

definition eval_wait :: "int \<Rightarrow> shell \<Rightarrow> wait" where
  "eval_wait p s = (if p = fgpid (job_list s) then Suspended else Returned)"

subsection \<open>The builtins \<^verbatim>\<open>fg\<close> and \<^verbatim>\<open>bg\<close>\<close>

text \<open>
  \<^verbatim>\<open>atoi\<close> as the C library of the platform (glibc, 64-bit \<^verbatim>\<open>long\<close>) computes it:
  \<^verbatim>\<open>(int) strtol(str, NULL, 10)\<close>. \<^verbatim>\<open>strtol\<close> skips white space, takes an optional sign and
  the decimal digits up to the first other character (0 when there is no digit), and
  answers \<^verbatim>\<open>LONG_MAX\<close> or \<^verbatim>\<open>LONG_MIN\<close> when the number does not fit a \<^verbatim>\<open>long\<close>; the
  conversion to \<^verbatim>\<open>int\<close> keeps the low 32 bits, read in two's complement. The source
  stores the result in its \<^verbatim>\<open>int\<close> variables \<^verbatim>\<open>jid\<close> and \<^verbatim>\<open>pid\<close>.
\<close>

definition isspace :: "char \<Rightarrow> bool" where
  "isspace c = ((of_char c :: int) = 32 \<or> (9 \<le> (of_char c :: int) \<and> (of_char c :: int) \<le> 13))"

definition isdigit :: "char \<Rightarrow> bool" where
  "isdigit c = (48 \<le> (of_char c :: int) \<and> (of_char c :: int) \<le> 57)"

fun atoi_digits :: "int \<Rightarrow> string \<Rightarrow> int" where
  "atoi_digits acc [] = acc"
| "atoi_digits acc (c # cs) =
     (if isdigit c then atoi_digits (acc * 10 + (of_char c - 48)) cs else acc)"

definition strtol :: "string \<Rightarrow> int" where
  "strtol str =
     (case dropWhile isspace str of
        [] \<Rightarrow> 0
      | c # cs \<Rightarrow>
          if c = CHR ''-'' then max (- atoi_digits 0 cs) (- (2 ^ 63))
          else if c = CHR ''+'' then min (atoi_digits 0 cs) (2 ^ 63 - 1)
          else min (atoi_digits 0 (c # cs)) (2 ^ 63 - 1))"

definition int_of_long :: "int \<Rightarrow> int" where
  "int_of_long v = (v + 2 ^ 31) mod 2 ^ 32 - 2 ^ 31"

definition atoi :: "string \<Rightarrow> int" where
  "atoi str = int_of_long (strtol str)"

text \<open>
  \<^verbatim>\<open>kill(p, sig)\<close>, recorded; and the store \<^verbatim>\<open>job->state = st\<close> through a pointer to
  slot \<open>i\<close>.
\<close>

definition kill :: "int \<Rightarrow> int \<Rightarrow> shell \<Rightarrow> shell" where
  "kill p sig s = s\<lparr>kills := kills s @ [(p, sig)]\<rparr>"

definition set_state :: "nat \<Rightarrow> int \<Rightarrow> shell \<Rightarrow> shell" where
  "set_state i st s = s\<lparr>job_list := (job_list s)[i := ((job_list s) ! i)\<lparr>state := st\<rparr>]\<rparr>"

text \<open>
  The first half of \<^verbatim>\<open>execute_fg\<close> and of \<^verbatim>\<open>execute_bg\<close>, which differ in two message
  texts only (\<open>jmsg\<close>, \<open>pmsg\<close>): from the argument count to the target job. The result
  is a fault, or the state with \<open>None\<close> when the function has printed an error and
  returned, or the state with \<^verbatim>\<open>target_job\<close> and \<^verbatim>\<open>pid\<close>.

  In the \<^verbatim>\<open>%\<close> branch the source reads \<^verbatim>\<open>target_job->pid\<close> on the line before it tests
  \<^verbatim>\<open>!target_job\<close>; the model keeps that order.
\<close>

definition job_lookup ::
  "string \<Rightarrow> string \<Rightarrow> cmdline_tokens \<Rightarrow> shell \<Rightarrow> fault + shell \<times> (nat \<times> int) option" where
  "job_lookup jmsg pmsg tok s =
     (case argv tok of
        [] \<Rightarrow> Inl NullDeref
      | a0 # _ \<Rightarrow>
          if argc tok \<noteq> 2
          then Inr (sio_puts '' please input one and only one ID argument\<newline>'' (sio_puts a0 s), None)
          else
            (case argv tok ! 1 of
               [] \<Rightarrow> Inr (sio_puts pmsg (sio_puts a0 s), None)
             | c # cs \<Rightarrow>
                 if c = CHR ''%''
                 then
                   (let j = atoi cs in
                    if j = 0 then Inr (sio_puts jmsg (sio_puts a0 s), None)
                    else
                      (let target_job = getjobjid (job_list s) j in
                       case target_job of
                         None \<Rightarrow> Inl NullDeref
                       | Some i \<Rightarrow>
                           (let p = pid (job_list s ! i) in
                            if target_job = None
                            then Inr (sio_puts '']: job with this jid do not exist\<newline>''
                                       (sio_putl j (sio_puts ''['' s)), None)
                            else Inr (s, Some (i, p)))))
                 else
                   (let p = atoi (c # cs) in
                    if p = 0 then Inr (sio_puts pmsg (sio_puts a0 s), None)
                    else
                      (case getjobpid (job_list s) p of
                         None \<Rightarrow> Inr (sio_puts ''): process with this pid do not exist\<newline>''
                                       (sio_putl p (sio_puts ''('' s)), None)
                       | Some i \<Rightarrow> Inr (s, Some (i, p))))))"

definition fg_lookup :: "cmdline_tokens \<Rightarrow> shell \<Rightarrow> fault + shell \<times> (nat \<times> int) option" where
  "fg_lookup = job_lookup '': argument must be a nonzero %%jobid\<newline>''
                          '': argument must be a nonzero PID\<newline>''"

definition bg_lookup :: "cmdline_tokens \<Rightarrow> shell \<Rightarrow> fault + shell \<times> (nat \<times> int) option" where
  "bg_lookup = job_lookup '': argument must be a %%jobid\<newline>''
                          '': argument must be a PID\<newline>''"

text \<open>
  The second half of \<^verbatim>\<open>execute_fg\<close>, statement by statement. \<^verbatim>\<open>builtin_command\<close> blocks
  all signals and restores the previous mask before it calls the builtin, so a handler
  can run between any two of these steps.
  \<^item> \<open>fg_resume\<close>: the test for \<^verbatim>\<open>UNDEF\<close> (\<open>False\<close>: error printed, return) and the
    \<^verbatim>\<open>SIGCONT\<close> for a stopped job;
  \<^item> \<open>fg_set\<close>: \<^verbatim>\<open>target_job->state = FG\<close>;
  \<^item> \<open>fg_wait\<close>: the test of \<^verbatim>\<open>while (fgpid(job_list)) Sigsuspend(pprev)\<close>.
\<close>

definition fg_resume :: "nat \<Rightarrow> int \<Rightarrow> shell \<Rightarrow> shell \<times> bool" where
  "fg_resume i p s =
     (if state (job_list s ! i) = UNDEF
      then (sio_puts ''error: trying to fg a process not exist\<newline>'' s, False)
      else (if state (job_list s ! i) = ST then kill (- p) SIGCONT s else s, True))"

definition fg_set :: "nat \<Rightarrow> shell \<Rightarrow> shell" where
  "fg_set i s = set_state i FG s"

definition fg_wait :: "shell \<Rightarrow> wait" where
  "fg_wait s = (if fgpid (job_list s) \<noteq> 0 then Suspended else Returned)"

text \<open>\<^verbatim>\<open>execute_fg\<close> when no signal arrives before its wait loop.\<close>

definition execute_fg :: "cmdline_tokens \<Rightarrow> shell \<Rightarrow> fault + shell \<times> wait" where
  "execute_fg tok s =
     (case fg_lookup tok s of
        Inl f \<Rightarrow> Inl f
      | Inr (s1, None) \<Rightarrow> Inr (s1, Returned)
      | Inr (s1, Some (i, p)) \<Rightarrow>
          (case fg_resume i p s1 of
             (s2, False) \<Rightarrow> Inr (s2, Returned)
           | (s2, True) \<Rightarrow> Inr (fg_set i s2, fg_wait (fg_set i s2))))"

text \<open>
  \<^verbatim>\<open>execute_bg\<close>. Its test \<^verbatim>\<open>target_job == UNDEF\<close> compares the pointer with 0; the
  pointer is not \<^verbatim>\<open>NULL\<close> there, so the test never holds.
\<close>

definition execute_bg :: "cmdline_tokens \<Rightarrow> shell \<Rightarrow> fault + shell" where
  "execute_bg tok s =
     (case bg_lookup tok s of
        Inl f \<Rightarrow> Inl f
      | Inr (s1, None) \<Rightarrow> Inr s1
      | Inr (s1, Some (i, p)) \<Rightarrow>
          (let s2 = (if state (job_list s1 ! i) = ST then kill (- p) SIGCONT s1 else s1);
               s3 = set_state i BG s2;
               job = job_list s3 ! i
           in Inr (sio_puts ''\<newline>'' (sio_puts (cmdline job) (sio_puts '') '' (sio_putl (pid job)
                     (sio_puts ''] ('' (sio_putl (jid job) (sio_puts ''['' s3)))))))))"

subsection \<open>Signal handlers\<close>

text \<open>
  What \<^verbatim>\<open>waitpid\<close> stores in \<^verbatim>\<open>status\<close>, as the macros \<^verbatim>\<open>WIFSTOPPED\<close>, \<^verbatim>\<open>WIFSIGNALED\<close>
  and \<^verbatim>\<open>WIFEXITED\<close> read it, with the signal number or the exit code. Called with
  \<^verbatim>\<open>WNOHANG | WUNTRACED\<close>, \<^verbatim>\<open>waitpid\<close> reports no other kind of change.
\<close>

datatype wstatus = WStopped int | WSignaled int | WExited int

text \<open>One turn of the loop of \<^verbatim>\<open>sigchld_handler\<close>, for the \<^verbatim>\<open>pid\<close> and \<^verbatim>\<open>status\<close> reaped.\<close>

definition sigchld_reap :: "int \<Rightarrow> wstatus \<Rightarrow> shell \<Rightarrow> fault + shell" where
  "sigchld_reap p status s =
     (let job = getjobpid (job_list s) p in
      case status of
        WStopped sg \<Rightarrow>
          (case job of
             None \<Rightarrow> Inl NullDeref
           | Some i \<Rightarrow>
               if state (job_list s ! i) \<noteq> ST
               then Inr (set_state i ST
                      (sio_puts ''\<newline>'' (sio_putl sg (sio_puts '') stopped by signal ''
                        (sio_putl (pid (job_list s ! i)) (sio_puts ''] (''
                          (sio_putl (jid (job_list s ! i)) (sio_puts ''Job ['' s))))))))
               else Inr s)
      | WSignaled sg \<Rightarrow>
          (case job of
             None \<Rightarrow> Inl NullDeref
           | Some i \<Rightarrow>
               Inr (snd (deletejob p
                      (sio_puts ''\<newline>'' (sio_putl sg (sio_puts '') terminated by signal ''
                        (sio_putl (pid (job_list s ! i)) (sio_puts ''] (''
                          (sio_putl (jid (job_list s ! i)) (sio_puts ''Job ['' s))))))))))
      | WExited c \<Rightarrow> Inr (snd (deletejob p s)))"

text \<open>
  \<^verbatim>\<open>sigchld_handler\<close>: the list holds what the successive calls of \<^verbatim>\<open>waitpid\<close> return
  while children are pending; the loop ends at the first \<^verbatim>\<open>pid\<close> that is not positive
  or when nothing is pending.
\<close>

fun sigchld_handler :: "(int \<times> wstatus) list \<Rightarrow> shell \<Rightarrow> fault + shell" where
  "sigchld_handler [] s = Inr s"
| "sigchld_handler ((p, status) # pending) s =
     (if p > 0
      then (case sigchld_reap p status s of
              Inl f \<Rightarrow> Inl f
            | Inr s' \<Rightarrow> sigchld_handler pending s')
      else Inr s)"

definition sigint_handler :: "int \<Rightarrow> shell \<Rightarrow> shell" where
  "sigint_handler sig s =
     (let p = fgpid (job_list s) in if p \<noteq> 0 then kill (- p) sig s else s)"

definition sigtstp_handler :: "int \<Rightarrow> shell \<Rightarrow> fault + shell" where
  "sigtstp_handler sig s =
     (let p = fgpid (job_list s);
          j = pid2jid (job_list s) p;
          job = getjobpid (job_list s) p
      in if p \<noteq> 0
         then
           (let s1 = sio_puts ''\<newline>'' (sio_putl sig (sio_puts '') stopped by signal ''
                       (sio_putl p (sio_puts ''] ('' (sio_putl j (sio_puts ''Job ['' s))))))
            in case job of
                 None \<Rightarrow> Inl NullDeref
               | Some i \<Rightarrow> Inr (kill (- p) sig (set_state i ST s1)))
         else Inr s)"

subsection \<open>The shell at start-up\<close>

text \<open>
  The globals as \<^verbatim>\<open>main\<close> leaves them before its first prompt: static storage is zero,
  \<^verbatim>\<open>nextjid\<close> is 1, \<^verbatim>\<open>initjobs\<close> has cleared the \<^verbatim>\<open>MAXJOBS\<close> slots.
\<close>

definition zero_job :: job_t where
  "zero_job = \<lparr>pid = 0, jid = 0, state = 0, cmdline = []\<rparr>"

definition startup :: shell where
  "startup = \<lparr>job_list = initjobs (replicate (nat MAXJOBS) zero_job), nextjid = 1,
               verbose = False, sio = [], stdio = [], kills = []\<rparr>"

subsection \<open>Notions the properties are stated with\<close>

text \<open>The number of slots in a given state, and the number of free slots.\<close>

definition count_state :: "int \<Rightarrow> job_t list \<Rightarrow> nat" where
  "count_state st jl = length (filter (\<lambda>j. state j = st) jl)"

definition count_free :: "job_t list \<Rightarrow> nat" where
  "count_free jl = length (filter (\<lambda>j. pid j = 0) jl)"

text \<open>The largest job id of an occupied slot; 0 when no slot is occupied.\<close>

definition max_occupied_jid :: "job_t list \<Rightarrow> int" where
  "max_occupied_jid jl =
     (let ids = map jid (filter (\<lambda>j. pid j \<noteq> 0) jl) in if ids = [] then 0 else Max (set ids))"

text \<open>
  What \<^verbatim>\<open>clearjob\<close> and \<^verbatim>\<open>addjob\<close> (the only writers of \<^verbatim>\<open>pid\<close> and \<^verbatim>\<open>jid\<close>) maintain
  while \<^verbatim>\<open>nextjid\<close> is positive: a free slot carries no id, an occupied one a positive id.
\<close>

definition wf_table :: "job_t list \<Rightarrow> bool" where
  "wf_table jl = (\<forall>j\<in>set jl. if pid j = 0 then jid j = 0 else 0 < jid j)"

definition wf_shell :: "shell \<Rightarrow> bool" where
  "wf_shell s = (wf_table (job_list s) \<and> 0 < nextjid s)"

definition ids_below_next :: "shell \<Rightarrow> bool" where
  "ids_below_next s = list_all (\<lambda>j. jid j < nextjid s) (job_list s)"

subsection \<open>Sample runs\<close>

text \<open>
  The user types one background command per process id of the list; each passes through
  the parent half of \<^verbatim>\<open>eval\<close>.
\<close>

definition launch_bg :: "int list \<Rightarrow> string \<Rightarrow> shell \<Rightarrow> shell" where
  "launch_bg ps cl s = fold (\<lambda>p s. fst (eval_parent p 1 cl s)) ps s"

definition bg_sleep :: "int \<Rightarrow> int \<Rightarrow> job_t" where
  "bg_sleep p n = \<lparr>pid = p, jid = n, state = BG, cmdline = ''/bin/sleep 100 &''\<rparr>"

definition two_jobs :: shell where
  "two_jobs = launch_bg [101, 102] ''/bin/sleep 100 &'' startup"

definition sixteen_jobs :: shell where
  "sixteen_jobs =
     launch_bg [101, 102, 103, 104, 105, 106, 107, 108, 109, 110, 111, 112, 113, 114, 115, 116]
       ''/bin/sleep 100 &'' startup"

definition seventeen_jobs :: shell where
  "seventeen_jobs = fst (eval_parent 117 1 ''/bin/sleep 100 &'' sixteen_jobs)"

text \<open>One foreground command, the shell asleep in the wait loop of \<^verbatim>\<open>eval\<close>.\<close>

definition fg_job :: shell where
  "fg_job = fst (eval_parent 101 0 ''/bin/sleep 100'' startup)"

text \<open>The tokens of the command lines \<^verbatim>\<open>fg arg\<close> and \<^verbatim>\<open>bg arg\<close>.\<close>

definition builtin_tok :: "string \<Rightarrow> string \<Rightarrow> cmdline_tokens" where
  "builtin_tok name arg =
     \<lparr>argv = [name, arg], infile = None, outfile = None,
      builtins = (if name = ''fg'' then BUILTIN_FG else BUILTIN_BG)\<rparr>"

text \<open>
  A run in which \<^verbatim>\<open>SIGCHLD\<close> arrives inside \<^verbatim>\<open>execute_fg\<close>. From \<open>two_jobs\<close> (jobs 1
  and 2 in slots 0 and 1):
  \<^item> \<open>fg_race_1\<close>: process 101 has exited and \<^verbatim>\<open>sigchld_handler\<close> has freed slot 0;
  \<^item> the user types \<^verbatim>\<open>fg %2\<close>; \<^verbatim>\<open>execute_fg\<close> finds slot 1 and passes its tests of the
    state;
  \<^item> \<open>fg_race_2\<close>: process 102 exits and \<^verbatim>\<open>sigchld_handler\<close> runs before the store
    \<^verbatim>\<open>target_job->state = FG\<close>, clearing slot 1;
  \<^item> \<open>fg_race_3\<close>: \<^verbatim>\<open>execute_fg\<close> resumes with its store into slot 1;
  \<^item> \<open>fg_race_4\<close>: the user types a foreground command, which \<^verbatim>\<open>addjob\<close> puts in slot 0.
\<close>

definition fg_race_1 :: shell where
  "fg_race_1 = projr (sigchld_handler [(101, WExited 0)] two_jobs)"

definition fg_race_2 :: shell where
  "fg_race_2 = projr (sigchld_handler [(102, WExited 0)] fg_race_1)"

definition fg_race_3 :: shell where
  "fg_race_3 = fg_set 1 fg_race_2"

definition fg_race_4 :: shell where
  "fg_race_4 = fst (eval_parent 103 0 ''/bin/sleep 100'' fg_race_3)"

text \<open>
  A run that ends with two jobs of the same id. Fifteen background launches fill slots
  0 to 14 with the ids 1 to 15 (\<open>dup_1\<close>; \<open>fill\<close> lists such slots); process 102 exits and
  is reaped, which frees slot 1 and sets \<^verbatim>\<open>nextjid\<close> to 16 (\<open>dup_2\<close>); two more background
  launches follow (\<open>dup_3\<close>).
\<close>

fun fill :: "int list \<Rightarrow> int \<Rightarrow> string \<Rightarrow> job_t list" where
  "fill [] n cl = []"
| "fill (p # ps) n cl = \<lparr>pid = p, jid = n, state = BG, cmdline = cl\<rparr> # fill ps (n + 1) cl"

definition dup_1 :: shell where
  "dup_1 = launch_bg [101, 102, 103, 104, 105, 106, 107, 108, 109, 110, 111, 112, 113, 114, 115]
             ''/bin/sleep 100 &'' startup"

definition dup_2 :: shell where
  "dup_2 = snd (deletejob 102 dup_1)"

definition dup_3 :: shell where
  "dup_3 = launch_bg [116, 117] ''/bin/sleep 100 &'' dup_2"

subsection \<open>Runs in which no handler interrupts a builtin\<close>

text \<open>
  The shell is at its prompt, asleep in the wait loop of \<^verbatim>\<open>eval\<close> for process \<open>p\<close>, or
  asleep in the wait loop of \<^verbatim>\<open>execute_fg\<close>. \<open>atomic_run s m\<close> holds for the states
  \<open>s\<close> and modes \<open>m\<close> reached when every command line is processed from the prompt, the
  handlers run at any moment between two functions of the main flow, and a wait loop is
  left when its test fails. It leaves out the deliveries of a signal in the middle of
  \<^verbatim>\<open>execute_fg\<close> and \<^verbatim>\<open>execute_bg\<close>, which the source permits.
\<close>

datatype mode = Prompt | WaitEval int | WaitFg

definition after_wait :: "wait \<Rightarrow> mode \<Rightarrow> mode" where
  "after_wait w m = (case w of Suspended \<Rightarrow> m | Returned \<Rightarrow> Prompt)"

inductive atomic_run :: "shell \<Rightarrow> mode \<Rightarrow> bool" where
  start: "atomic_run startup Prompt"
| launch: "atomic_run s Prompt \<Longrightarrow> 0 < p \<Longrightarrow> eval_parent p bg cl s = (s', w) \<Longrightarrow>
           atomic_run s' (after_wait w (WaitEval p))"
| wake_eval: "atomic_run s (WaitEval p) \<Longrightarrow> eval_wait p s = Returned \<Longrightarrow> atomic_run s Prompt"
| fg: "atomic_run s Prompt \<Longrightarrow> execute_fg tok s = Inr (s', w) \<Longrightarrow>
       atomic_run s' (after_wait w WaitFg)"
| wake_fg: "atomic_run s WaitFg \<Longrightarrow> fg_wait s = Returned \<Longrightarrow> atomic_run s Prompt"
| bg: "atomic_run s Prompt \<Longrightarrow> execute_bg tok s = Inr s' \<Longrightarrow> atomic_run s' Prompt"
| chld: "atomic_run s m \<Longrightarrow> sigchld_handler pending s = Inr s' \<Longrightarrow> atomic_run s' m"
| int: "atomic_run s m \<Longrightarrow> atomic_run (sigint_handler sig s) m"
| tstp: "atomic_run s m \<Longrightarrow> sigtstp_handler sig s = Inr s' \<Longrightarrow> atomic_run s' m"

definition fg_inv :: "job_t list \<Rightarrow> mode \<Rightarrow> bool" where
  "fg_inv jl m =
     (count_state FG jl \<le> 1 \<and>
      list_all (\<lambda>j. state j = FG \<longrightarrow> pid j \<noteq> 0) jl \<and>
      (case m of
         Prompt \<Rightarrow> count_state FG jl = 0
       | WaitEval p \<Rightarrow> list_all (\<lambda>j. state j = FG \<longrightarrow> pid j = p) jl
       | WaitFg \<Rightarrow> True))"

text \<open>A step that sets no slot to \<open>FG\<close> and changes no \<open>pid\<close> of a foreground slot.\<close>

definition calmer :: "job_t list \<Rightarrow> job_t list \<Rightarrow> bool" where
  "calmer jl' jl =
     (count_state FG jl' \<le> count_state FG jl \<and>
      (\<forall>P. list_all (\<lambda>j. state j = FG \<longrightarrow> P (pid j)) jl \<longrightarrow>
           list_all (\<lambda>j. state j = FG \<longrightarrow> P (pid j)) jl'))"

section \<open>Facts about the scans\<close>

lemma first_slot_None_iff: "first_slot P xs = None \<longleftrightarrow> (\<forall>x\<in>set xs. \<not> P x)"
  by (induction xs) auto

lemma first_slot_Some:
  "first_slot P xs = Some i \<Longrightarrow> i < length xs \<and> P (xs ! i) \<and> (\<forall>k<i. \<not> P (xs ! k))"
proof (induction xs arbitrary: i)
  case Nil
  then show ?case by simp
next
  case (Cons x xs)
  show ?case
  proof (cases "P x")
    case True
    with Cons.prems show ?thesis by simp
  next
    case False
    with Cons.prems obtain k where k: "first_slot P xs = Some k" "i = Suc k"
      by auto
    from Cons.IH [OF k(1)] False k(2) show ?thesis
      by (auto simp: less_Suc_eq_0_disj)
  qed
qed

lemma first_slot_ex: "\<exists>x\<in>set xs. P x \<Longrightarrow> \<exists>i. first_slot P xs = Some i"
  using first_slot_None_iff [of P xs] by (cases "first_slot P xs") auto

lemma clearjob_zero: "clearjob (j :: job_t) = zero_job"
  by (simp add: clearjob_def zero_job_def)

lemma job_update_all:
  "(j :: job_t)\<lparr>pid := a, state := c, jid := b, cmdline := d\<rparr> = \<lparr>pid = a, jid = b, state = c, cmdline = d\<rparr>"
  by (cases j) simp

lemma getjobpid_Some:
  "getjobpid jl p = Some i \<Longrightarrow> 0 < p \<and> first_slot (\<lambda>j. pid j = p) jl = Some i \<and> i < length jl \<and> pid (jl ! i) = p"
  by (auto simp: getjobpid_def split: if_splits dest: first_slot_Some)

subsection \<open>\<^verbatim>\<open>maxjid\<close> is the maximum of 0 and the ids in the table\<close>

lemma maxjid_loop_ge: "m \<le> maxjid_loop jl m"
proof (induction jl arbitrary: m)
  case Nil
  then show ?case by simp
next
  case (Cons j js)
  have "m \<le> (if jid j > m then jid j else m)" by simp
  also have "\<dots> \<le> maxjid_loop js (if jid j > m then jid j else m)" by (rule Cons.IH)
  finally show ?case by simp
qed

lemma maxjid_loop_upper: "j \<in> set jl \<Longrightarrow> jid j \<le> maxjid_loop jl m"
proof (induction jl arbitrary: m)
  case Nil
  then show ?case by simp
next
  case (Cons x xs)
  show ?case
  proof (cases "j = x")
    case True
    have "jid x \<le> (if jid x > m then jid x else m)" by simp
    also have "\<dots> \<le> maxjid_loop xs (if jid x > m then jid x else m)" by (rule maxjid_loop_ge)
    finally show ?thesis using True by simp
  next
    case False
    with Cons.prems have "j \<in> set xs" by simp
    from Cons.IH [OF this] show ?thesis by simp
  qed
qed

lemma maxjid_loop_attained: "maxjid_loop jl m = m \<or> maxjid_loop jl m \<in> jid ` set jl"
proof (induction jl arbitrary: m)
  case Nil
  then show ?case by simp
next
  case (Cons x xs)
  from Cons.IH [of "if jid x > m then jid x else m"] show ?case
    by (auto split: if_splits)
qed

lemma maxjid_eqI:
  assumes "0 \<le> n" and "\<And>j. j \<in> set jl \<Longrightarrow> jid j \<le> n" and "n = 0 \<or> n \<in> jid ` set jl"
  shows "maxjid jl = n"
proof (rule antisym)
  from maxjid_loop_attained [of jl 0] assms(1,2) show "maxjid jl \<le> n"
    by (auto simp: maxjid_def)
  from assms(3) show "n \<le> maxjid jl"
  proof
    assume "n = 0"
    then show ?thesis using maxjid_loop_ge [of 0 jl] by (simp add: maxjid_def)
  next
    assume "n \<in> jid ` set jl"
    then show ?thesis using maxjid_loop_upper [of _ jl 0] by (auto simp: maxjid_def)
  qed
qed

lemma maxjid_occupied:
  assumes "wf_table jl"
  shows "maxjid jl = max_occupied_jid jl"
proof (cases "filter (\<lambda>j. pid j \<noteq> 0) jl = []")
  case True
  then have "\<forall>j\<in>set jl. pid j = 0" by (simp add: filter_empty_conv)
  with assms have "\<And>j. j \<in> set jl \<Longrightarrow> jid j \<le> 0" by (auto simp: wf_table_def)
  then have "maxjid jl = 0" by (intro maxjid_eqI) auto
  with True show ?thesis by (simp add: max_occupied_jid_def)
next
  case False
  let ?A = "set (map jid (filter (\<lambda>j. pid j \<noteq> 0) jl))"
  have ne: "?A \<noteq> {}" using False by (auto simp: filter_empty_conv)
  have fin: "finite ?A" by simp
  from Max_in [OF fin ne] have "Max ?A \<in> jid ` {j \<in> set jl. pid j \<noteq> 0}" by simp
  then obtain j where j: "j \<in> set jl" "pid j \<noteq> 0" "jid j = Max ?A"
    by (auto simp: image_iff)
  have pos: "0 < Max ?A" using j assms by (auto simp: wf_table_def)
  have "maxjid jl = Max ?A"
  proof (rule maxjid_eqI)
    show "0 \<le> Max ?A" using pos by simp
    show "Max ?A = 0 \<or> Max ?A \<in> jid ` set jl" using j by force
    fix k assume k: "k \<in> set jl"
    show "jid k \<le> Max ?A"
    proof (cases "pid k = 0")
      case True
      with k assms have "jid k = 0" by (auto simp: wf_table_def)
      with pos show ?thesis by simp
    next
      case False
      with k have "jid k \<in> ?A" by simp
      then show ?thesis using fin by (rule Max_ge [rotated])
    qed
  qed
  with False show ?thesis by (simp add: max_occupied_jid_def)
qed

subsection \<open>\<^verbatim>\<open>addjob\<close> and the parent half of \<^verbatim>\<open>eval\<close>\<close>

lemma eval_parent_fields:
  "job_list (fst (eval_parent p bg cl s)) = job_list (snd (addjob p (bg + 1) cl s))"
  "nextjid (fst (eval_parent p bg cl s)) = nextjid (snd (addjob p (bg + 1) cl s))"
  "kills (fst (eval_parent p bg cl s)) = kills (snd (addjob p (bg + 1) cl s))"
  "stdio (fst (eval_parent p bg cl s)) = stdio (snd (addjob p (bg + 1) cl s))"
  by (simp_all add: eval_parent_def Let_def sio_puts_def sio_putl_def)

lemma addjob_no_free:
  assumes "0 < p" and "list_all (\<lambda>j. pid j \<noteq> 0) (job_list s)"
  shows "addjob p st cl s = (0, s\<lparr>stdio := stdio s @ ''Tried to create too many jobs\<newline>''\<rparr>)"
proof -
  have "first_slot (\<lambda>j. pid j = 0) (job_list s) = None"
    using assms(2) by (simp add: first_slot_None_iff list_all_iff)
  with assms(1) show ?thesis by (simp add: addjob_def)
qed

lemma addjob_free:
  assumes "0 < p" and "first_slot (\<lambda>j. pid j = 0) (job_list s) = Some i"
  shows "job_list (snd (addjob p st cl s)) =
           (job_list s)[i := \<lparr>pid = p, jid = nextjid s, state = st, cmdline = cl\<rparr>]"
    and "nextjid (snd (addjob p st cl s)) = (if nextjid s + 1 > MAXJOBS then 1 else nextjid s + 1)"
    and "fst (addjob p st cl s) = 1"
  using assms by (simp_all add: addjob_def Let_def job_update_all)

lemma addjob_pids:
  "pid ` set (job_list (snd (addjob p st cl s))) \<subseteq> insert p (pid ` set (job_list s))"
proof (cases "0 < p")
  case False
  then show ?thesis by (auto simp: addjob_def)
next
  case True
  show ?thesis
  proof (cases "first_slot (\<lambda>j. pid j = 0) (job_list s)")
    case None
    with True show ?thesis by (auto simp: addjob_def)
  next
    case (Some i)
    let ?job = "\<lparr>pid = p, jid = nextjid s, state = st, cmdline = cl\<rparr>"
    have "set (job_list (snd (addjob p st cl s))) \<subseteq> insert ?job (set (job_list s))"
      unfolding addjob_free(1) [OF True Some] by (rule set_update_subset_insert)
    then have "pid ` set (job_list (snd (addjob p st cl s))) \<subseteq> pid ` insert ?job (set (job_list s))"
      by (rule image_mono)
    then show ?thesis by simp
  qed
qed

lemma count_free_update:
  "first_slot (\<lambda>j. pid j = 0) jl = Some i \<Longrightarrow> pid job \<noteq> 0 \<Longrightarrow>
     Suc (count_free (jl[i := job])) = count_free jl"
proof (induction jl arbitrary: i)
  case Nil
  then show ?case by simp
next
  case (Cons x xs)
  show ?case
  proof (cases "pid x = 0")
    case True
    with Cons.prems show ?thesis by (simp add: count_free_def)
  next
    case False
    with Cons.prems obtain k where k: "first_slot (\<lambda>j. pid j = 0) xs = Some k" "i = Suc k"
      by auto
    from Cons.IH [OF k(1) Cons.prems(2)] False k(2) show ?thesis
      by (simp add: count_free_def)
  qed
qed

lemma count_free_pos: "0 < count_free jl \<Longrightarrow> \<exists>i. first_slot (\<lambda>j. pid j = 0) jl = Some i"
  by (rule first_slot_ex) (auto simp: count_free_def filter_empty_conv)

lemma count_free_zero: "count_free jl = 0 \<Longrightarrow> list_all (\<lambda>j. pid j \<noteq> 0) jl"
  by (auto simp: count_free_def filter_empty_conv list_all_iff)

lemma launch_one:
  assumes "0 < p" and "0 < count_free (job_list s)"
  shows "\<exists>i < length (job_list s).
           job_list (fst (eval_parent p bg cl s)) =
              (job_list s)[i := \<lparr>pid = p, jid = nextjid s, state = bg + 1, cmdline = cl\<rparr>] \<and>
           Suc (count_free (job_list (fst (eval_parent p bg cl s)))) = count_free (job_list s) \<and>
           nextjid (fst (eval_parent p bg cl s)) = (if nextjid s + 1 > MAXJOBS then 1 else nextjid s + 1)"
proof -
  from count_free_pos [OF assms(2)] obtain i
    where i: "first_slot (\<lambda>j. pid j = 0) (job_list s) = Some i" by blast
  have "pid \<lparr>pid = p, jid = nextjid s, state = bg + 1, cmdline = cl\<rparr> \<noteq> 0"
    using assms(1) by simp
  from count_free_update [OF i this] addjob_free [OF assms(1) i] first_slot_Some [OF i]
  show ?thesis by (auto simp: eval_parent_fields)
qed

subsection \<open>Runs of background launches\<close>

lemma launch_bg_nowrap:
  assumes "list_all (\<lambda>p. 0 < p) ps"
    and "length ps \<le> count_free (job_list s)"
    and "nextjid s + int (length ps) \<le> MAXJOBS"
    and "ids_below_next s"
  shows "nextjid (launch_bg ps cl s) = nextjid s + int (length ps) \<and>
         count_free (job_list (launch_bg ps cl s)) + length ps = count_free (job_list s) \<and>
         ids_below_next (launch_bg ps cl s)"
  using assms
proof (induction ps arbitrary: s)
  case Nil
  then show ?case by (simp add: launch_bg_def)
next
  case (Cons p ps)
  let ?s = "fst (eval_parent p 1 cl s)"
  have p: "0 < p" and free: "0 < count_free (job_list s)"
    using Cons.prems by auto
  from launch_one [OF p free, of 1 cl] obtain i where i: "i < length (job_list s)"
    "job_list ?s = (job_list s)[i := \<lparr>pid = p, jid = nextjid s, state = 1 + 1, cmdline = cl\<rparr>]"
    "Suc (count_free (job_list ?s)) = count_free (job_list s)"
    "nextjid ?s = (if nextjid s + 1 > MAXJOBS then 1 else nextjid s + 1)"
    by blast
  have n: "nextjid ?s = nextjid s + 1" using i(4) Cons.prems(3) by simp
  have inv: "ids_below_next ?s"
    using Cons.prems(4) i(2) n
    by (auto simp: ids_below_next_def list_all_iff dest!: set_update_subset_insert [THEN subsetD])
  have "nextjid (launch_bg ps cl ?s) = nextjid ?s + int (length ps) \<and>
         count_free (job_list (launch_bg ps cl ?s)) + length ps = count_free (job_list ?s) \<and>
         ids_below_next (launch_bg ps cl ?s)"
    using Cons.prems i(3) n inv by (intro Cons.IH) auto
  moreover have "launch_bg (p # ps) cl s = launch_bg ps cl ?s"
    by (simp add: launch_bg_def)
  ultimately show ?case using n i(3) by simp
qed

lemma launch_bg_snoc: "launch_bg (ps @ [p]) cl s = fst (eval_parent p 1 cl (launch_bg ps cl s))"
  by (simp add: launch_bg_def)

lemma launch_bg_pids:
  "pid ` set (job_list (launch_bg ps cl s)) \<subseteq> set ps \<union> pid ` set (job_list s)"
proof (induction ps arbitrary: s)
  case Nil
  then show ?case by (simp add: launch_bg_def)
next
  case (Cons p ps)
  have "launch_bg (p # ps) cl s = launch_bg ps cl (fst (eval_parent p 1 cl s))"
    by (simp add: launch_bg_def)
  moreover have "pid ` set (job_list (fst (eval_parent p 1 cl s))) \<subseteq> insert p (pid ` set (job_list s))"
    using addjob_pids [of p "1 + 1" cl s] by (simp add: eval_parent_fields)
  moreover note Cons.IH [of "fst (eval_parent p 1 cl s)"]
  ultimately show ?case by (simp only: list.set) blast
qed

lemma startup_facts:
  "count_free (job_list startup) = 16" "nextjid startup = 1" "ids_below_next startup"
  by (simp_all add: startup_def initjobs_def clearjob_def zero_job_def count_free_def ids_below_next_def
        list_all_iff)

lemma fifteen_jobs:
  "nextjid (launch_bg [101, 102, 103, 104, 105, 106, 107, 108, 109, 110, 111, 112, 113, 114, 115]
       ''/bin/sleep 100 &'' startup) = 16"
  "count_free (job_list (launch_bg [101, 102, 103, 104, 105, 106, 107, 108, 109, 110, 111, 112, 113, 114, 115]
       ''/bin/sleep 100 &'' startup)) = 1"
  "ids_below_next (launch_bg [101, 102, 103, 104, 105, 106, 107, 108, 109, 110, 111, 112, 113, 114, 115]
       ''/bin/sleep 100 &'' startup)"
proof -
  let ?ps = "[101, 102, 103, 104, 105, 106, 107, 108, 109, 110, 111, 112, 113, 114, 115] :: int list"
  have len: "length ?ps = 15" by simp
  have a: "list_all (\<lambda>p. 0 < p) ?ps" by simp
  have b: "length ?ps \<le> count_free (job_list startup)"
    unfolding len startup_facts by simp
  have c: "nextjid startup + int (length ?ps) \<le> MAXJOBS"
    unfolding len startup_facts by simp
  note r = launch_bg_nowrap [OF a b c startup_facts(3), of "''/bin/sleep 100 &''", unfolded len startup_facts]
  from r show "nextjid (launch_bg ?ps ''/bin/sleep 100 &'' startup) = 16" by simp
  from r show "count_free (job_list (launch_bg ?ps ''/bin/sleep 100 &'' startup)) = 1" by simp
  from r show "ids_below_next (launch_bg ?ps ''/bin/sleep 100 &'' startup)" by simp
qed

lemma sixteen_jobs_snoc:
  "sixteen_jobs = fst (eval_parent 116 1 ''/bin/sleep 100 &''
     (launch_bg [101, 102, 103, 104, 105, 106, 107, 108, 109, 110, 111, 112, 113, 114, 115]
       ''/bin/sleep 100 &'' startup))"
  unfolding sixteen_jobs_def
  using launch_bg_snoc [of "[101, 102, 103, 104, 105, 106, 107, 108, 109, 110, 111, 112, 113, 114, 115]"
      116 "''/bin/sleep 100 &''" startup]
  by simp

lemma sixteen_jobs_facts:
  "nextjid sixteen_jobs = 1" "maxjid (job_list sixteen_jobs) = 16"
  "count_free (job_list sixteen_jobs) = 0"
proof -
  let ?s = "launch_bg [101, 102, 103, 104, 105, 106, 107, 108, 109, 110, 111, 112, 113, 114, 115]
       ''/bin/sleep 100 &'' startup"
  let ?job = "\<lparr>pid = 116, jid = 16, state = 2, cmdline = ''/bin/sleep 100 &''\<rparr>"
  have free: "0 < count_free (job_list ?s)" by (simp only: fifteen_jobs)
  have pos: "(0::int) < 116" by simp
  from launch_one [OF pos free, of 1 "''/bin/sleep 100 &''"]
  obtain i where i0: "i < length (job_list ?s)"
    "job_list (fst (eval_parent 116 1 ''/bin/sleep 100 &'' ?s)) =
       (job_list ?s)[i := \<lparr>pid = 116, jid = nextjid ?s, state = 1 + 1, cmdline = ''/bin/sleep 100 &''\<rparr>]"
    "Suc (count_free (job_list (fst (eval_parent 116 1 ''/bin/sleep 100 &'' ?s)))) = count_free (job_list ?s)"
    "nextjid (fst (eval_parent 116 1 ''/bin/sleep 100 &'' ?s)) = (if nextjid ?s + 1 > MAXJOBS then 1 else nextjid ?s + 1)"
    by blast
  have i2: "job_list sixteen_jobs = (job_list ?s)[i := ?job]"
    using i0(2) by (simp only: sixteen_jobs_snoc [symmetric] fifteen_jobs(1)) simp
  have i3: "Suc (count_free (job_list sixteen_jobs)) = 1"
    using i0(3) by (simp only: sixteen_jobs_snoc [symmetric] fifteen_jobs(2))
  have i4: "nextjid sixteen_jobs = (if (16::int) + 1 > MAXJOBS then 1 else 16 + 1)"
    using i0(4) by (simp only: sixteen_jobs_snoc [symmetric] fifteen_jobs(1))
  show "nextjid sixteen_jobs = 1" using i4 by simp
  show "count_free (job_list sixteen_jobs) = 0" using i3 by simp
  show "maxjid (job_list sixteen_jobs) = 16"
  proof (rule maxjid_eqI)
    show "(0::int) \<le> 16" by simp
    have "?job \<in> set (job_list sixteen_jobs)"
      unfolding i2 using i0(1) by (rule set_update_memI)
    then have "jid ?job \<in> jid ` set (job_list sixteen_jobs)" by (rule imageI)
    then show "16 = 0 \<or> 16 \<in> jid ` set (job_list sixteen_jobs)" by simp
    fix j assume "j \<in> set (job_list sixteen_jobs)"
    then have "j \<in> insert ?job (set (job_list ?s))"
      unfolding i2 by (rule set_update_subset_insert [THEN subsetD])
    then have "j = ?job \<or> j \<in> set (job_list ?s)" by simp
    then show "jid j \<le> 16"
    proof
      assume "j = ?job"
      then show ?thesis by simp
    next
      assume "j \<in> set (job_list ?s)"
      with fifteen_jobs(3) have "jid j < nextjid ?s"
        by (simp add: ids_below_next_def list_all_iff)
      then show ?thesis using fifteen_jobs(1) by simp
    qed
  qed
qed

lemma sixteen_jobs_full: "list_all (\<lambda>j. pid j \<noteq> 0) (job_list sixteen_jobs)"
  by (rule count_free_zero) (rule sixteen_jobs_facts)

lemma sixteen_jobs_pids: "117 \<notin> pid ` set (job_list sixteen_jobs)"
proof -
  have "pid ` set (job_list sixteen_jobs) \<subseteq>
      set [101, 102, 103, 104, 105, 106, 107, 108, 109, 110, 111, 112, 113, 114, 115, 116]
        \<union> pid ` set (job_list startup)"
    unfolding sixteen_jobs_def by (rule launch_bg_pids)
  moreover have "pid ` set (job_list startup) \<subseteq> {0}"
    by (auto simp: startup_def initjobs_def clearjob_def)
  ultimately have "pid ` set (job_list sixteen_jobs) \<subseteq>
      set [0, 101, 102, 103, 104, 105, 106, 107, 108, 109, 110, 111, 112, 113, 114, 115, 116]"
    by (simp only: list.set) blast
  moreover have "117 \<notin> set [0, 101, 102, 103, 104, 105, 106, 107, 108, 109, 110, 111, 112, 113, 114, 115, 116 :: int]"
    by simp
  ultimately show ?thesis by (rule contra_subsetD)
qed

section \<open>The sample runs, evaluated\<close>

lemma ltoa_vals:
  "sio_ltoa 0 = ''0''" "sio_ltoa 1 = ''1''" "sio_ltoa 2 = ''2''" "sio_ltoa 19 = ''19''"
  "sio_ltoa 20 = ''20''" "sio_ltoa 101 = ''101''" "sio_ltoa 102 = ''102''" "sio_ltoa 117 = ''117''"
  by code_simp+

lemma atoi_vals: "atoi ''2'' = 2" "atoi ''5'' = 5"
  by code_simp+

text \<open>Numbers beyond 32 bits: only the low 32 bits reach \<^verbatim>\<open>jid\<close> and \<^verbatim>\<open>pid\<close>.\<close>

lemma atoi_keeps_low_32_bits:
  "atoi ''4294967297'' = 1" "atoi ''4294967296'' = 0" "atoi ''2147483648'' = - 2147483648"
  "atoi ''99999999999999999999'' = - 1"
  by code_simp+

lemma startup_val:
  "startup = \<lparr>job_list = replicate 16 zero_job, nextjid = 1, verbose = False, sio = [], stdio = [], kills = []\<rparr>"
  by (simp add: startup_def initjobs_def clearjob_def zero_job_def)

lemma maxjid_replicate_zero: "maxjid_loop (replicate n zero_job) m = (if m < 0 then (if n = 0 then m else 0) else m)"
  by (induction n arbitrary: m) (auto simp: zero_job_def)

lemma first_slot_replicate: "first_slot P (replicate n x) = (if n = 0 \<or> \<not> P x then None else Some 0)"
  by (induction n) auto

lemma two_jobs_val:
  "two_jobs = \<lparr>job_list = bg_sleep 101 1 # bg_sleep 102 2 # replicate 14 zero_job, nextjid = 3,
     verbose = False,
     sio = ''[1] (101) /bin/sleep 100 &\<newline>[2] (102) /bin/sleep 100 &\<newline>'',
     stdio = [], kills = []\<rparr>"
  by (simp add: two_jobs_def launch_bg_def eval_parent_def addjob_def startup_val zero_job_def bg_sleep_def
      pid2jid_def sio_puts_def sio_putl_def ltoa_vals Let_def numeral_eq_Suc)

lemma fg_job_val:
  "fg_job = \<lparr>job_list = \<lparr>pid = 101, jid = 1, state = FG, cmdline = ''/bin/sleep 100''\<rparr>
                 # replicate 15 zero_job, nextjid = 2,
     verbose = False, sio = [], stdio = [], kills = []\<rparr>"
  by (simp add: fg_job_def eval_parent_def addjob_def startup_val zero_job_def Let_def numeral_eq_Suc)

lemma fg_race_1_val:
  "sigchld_handler [(101, WExited 0)] two_jobs = Inr fg_race_1 \<and>
   fg_race_1 = \<lparr>job_list = zero_job # bg_sleep 102 2 # replicate 14 zero_job, nextjid = 3,
     verbose = False,
     sio = ''[1] (101) /bin/sleep 100 &\<newline>[2] (102) /bin/sleep 100 &\<newline>'',
     stdio = [], kills = []\<rparr>"
  unfolding fg_race_1_def two_jobs_val
  by (simp add: sigchld_reap_def deletejob_def clearjob_def zero_job_def bg_sleep_def maxjid_def
       maxjid_replicate_zero [unfolded zero_job_def])

lemma fg_race_2_val:
  "sigchld_handler [(102, WExited 0)] fg_race_1 = Inr fg_race_2 \<and>
   fg_race_2 = \<lparr>job_list = replicate 16 zero_job, nextjid = 1,
     verbose = False,
     sio = ''[1] (101) /bin/sleep 100 &\<newline>[2] (102) /bin/sleep 100 &\<newline>'',
     stdio = [], kills = []\<rparr>"
  unfolding fg_race_2_def fg_race_1_val [THEN conjunct2]
  by (simp add: sigchld_reap_def deletejob_def clearjob_def zero_job_def bg_sleep_def maxjid_def
       maxjid_replicate_zero [unfolded zero_job_def] numeral_eq_Suc)

lemma fg_race_3_val:
  "fg_race_3 = \<lparr>job_list = zero_job # zero_job\<lparr>state := FG\<rparr> # replicate 14 zero_job, nextjid = 1,
     verbose = False,
     sio = ''[1] (101) /bin/sleep 100 &\<newline>[2] (102) /bin/sleep 100 &\<newline>'',
     stdio = [], kills = []\<rparr>"
  unfolding fg_race_3_def fg_race_2_val [THEN conjunct2]
  by (simp add: fg_set_def set_state_def numeral_eq_Suc)

lemma fg_race_4_val:
  "eval_parent 103 0 ''/bin/sleep 100'' fg_race_3 = (fg_race_4, Suspended) \<and>
   fg_race_4 = \<lparr>job_list = \<lparr>pid = 103, jid = 1, state = FG, cmdline = ''/bin/sleep 100''\<rparr>
                    # zero_job\<lparr>state := FG\<rparr> # replicate 14 zero_job, nextjid = 2,
     verbose = False,
     sio = ''[1] (101) /bin/sleep 100 &\<newline>[2] (102) /bin/sleep 100 &\<newline>'',
     stdio = [], kills = []\<rparr>"
  unfolding fg_race_4_def fg_race_3_val
  by (simp add: eval_parent_def addjob_def zero_job_def fgpid_def pid2jid_def Let_def)

section \<open>\<^verbatim>\<open>sio_ltoa\<close> writes a number that is not negative in decimal\<close>

lemma atoi_digits_append:
  "list_all isdigit xs \<Longrightarrow> atoi_digits acc (xs @ ys) = atoi_digits (atoi_digits acc xs) ys"
  by (induction xs arbitrary: acc) simp_all

lemma digit_char:
  assumes "0 \<le> c" and "c < 10"
  shows "isdigit (char_of (c + 48 :: int))" and "of_char (char_of (c + 48 :: int)) - 48 = c"
  using assms by (simp_all add: isdigit_def)

lemma sio_ltoa_loop_decimal:
  "0 \<le> v \<Longrightarrow> list_all isdigit (sio_ltoa_loop v) \<and> atoi_digits 0 (rev (sio_ltoa_loop v)) = v"
proof (induction v rule: sio_ltoa_loop.induct)
  case (1 v)
  let ?c = "v mod 10"
  let ?ch = "char_of (?c + 48)"
  have c: "0 \<le> ?c" "?c < 10" by simp_all
  note d = digit_char [OF c]
  have rem: "c_rem10 v = ?c" and quot: "c_quot10 v = v div 10"
    using "1.prems" by (simp_all add: c_rem10_def c_quot10_def)
  show ?case
  proof (cases "0 < v div 10")
    case True
    have loop: "sio_ltoa_loop v = ?ch # sio_ltoa_loop (v div 10)"
      using True c(2) by (subst sio_ltoa_loop.simps) (simp add: rem quot Let_def)
    from True have "0 \<le> v div 10" by simp
    with True have ih: "list_all isdigit (sio_ltoa_loop (v div 10))"
      "atoi_digits 0 (rev (sio_ltoa_loop (v div 10))) = v div 10"
      using "1.IH" [OF refl refl] by (simp_all add: quot)
    have "atoi_digits 0 (rev (sio_ltoa_loop v)) = (v div 10) * 10 + ?c"
      using ih d by (simp add: loop atoi_digits_append)
    then show ?thesis using ih(1) d(1) by (simp add: loop)
  next
    case False
    have loop: "sio_ltoa_loop v = [?ch]"
      using False c(2) by (subst sio_ltoa_loop.simps) (simp add: rem quot Let_def)
    from False "1.prems" have "v div 10 = 0"
      by (simp add: pos_imp_zdiv_nonneg_iff order.antisym not_less)
    then have "?c = v" using "1.prems" by (metis add.left_neutral mult_zero_right mult_div_mod_eq)
    with d show ?thesis by (simp add: loop)
  qed
qed

lemma sio_ltoa_decimal:
  "0 \<le> v \<Longrightarrow> list_all isdigit (sio_ltoa v) \<and> atoi_digits 0 (sio_ltoa v) = v"
  using sio_ltoa_loop_decimal [of v] by (simp add: sio_ltoa_def)

lemma atoi_sio_ltoa:
  assumes "0 \<le> v" and "v < 2 ^ 31"
  shows "atoi (sio_ltoa v) = v"
proof -
  note dec = sio_ltoa_decimal [OF assms(1)]
  have "sio_ltoa_loop v \<noteq> []"
    by (subst sio_ltoa_loop.simps) (simp add: Let_def)
  then have ne: "sio_ltoa v \<noteq> []"
    by (simp add: sio_ltoa_def)
  then obtain c cs where s: "sio_ltoa v = c # cs" by (cases "sio_ltoa v") auto
  from dec s have dig: "isdigit c" by simp
  then have "\<not> isspace c" "c \<noteq> CHR ''-''" "c \<noteq> CHR ''+''"
    by (auto simp: isdigit_def isspace_def)
  then have "strtol (sio_ltoa v) = min (atoi_digits 0 (sio_ltoa v)) (2 ^ 63 - 1)"
    by (simp add: strtol_def s)
  with dec assms(2) have "strtol (sio_ltoa v) = v" by simp
  with assms show ?thesis by (simp add: atoi_def int_of_long_def)
qed

section \<open>Every table the program builds is well formed\<close>

text \<open>
  \<open>wf_shell\<close> holds at start-up and is kept by every function that writes the job table,
  whatever the order of the calls.
\<close>

lemma wf_table_update:
  "wf_table jl \<Longrightarrow> (if pid job = 0 then jid job = 0 else 0 < jid job) \<Longrightarrow> wf_table (jl[i := job])"
  unfolding wf_table_def by (auto dest!: set_update_subset_insert [THEN subsetD])

lemma wf_table_nth: "wf_table jl \<Longrightarrow> i < length jl \<Longrightarrow> (if pid (jl ! i) = 0 then jid (jl ! i) = 0 else 0 < jid (jl ! i))"
  unfolding wf_table_def by (metis nth_mem)

lemma wf_startup: "wf_shell startup"
  by (simp add: wf_shell_def wf_table_def startup_val zero_job_def)

lemma wf_output [simp]:
  "wf_shell (sio_puts str s) = wf_shell s" "wf_shell (sio_putl v s) = wf_shell s"
  "wf_shell (kill p sig s) = wf_shell s"
  by (simp_all add: wf_shell_def sio_puts_def sio_putl_def kill_def)

lemma wf_addjob: "wf_shell s \<Longrightarrow> wf_shell (snd (addjob p st cl s))"
proof (cases "0 < p")
  case False
  assume "wf_shell s"
  with False show ?thesis by (simp add: addjob_def)
next
  case True
  assume wf: "wf_shell s"
  show ?thesis
  proof (cases "first_slot (\<lambda>j. pid j = 0) (job_list s)")
    case None
    with True wf show ?thesis by (simp add: addjob_def wf_shell_def)
  next
    case (Some i)
    from wf True have "wf_table ((job_list s)[i := \<lparr>pid = p, jid = nextjid s, state = st, cmdline = cl\<rparr>])"
      by (intro wf_table_update) (simp_all add: wf_shell_def)
    with wf show ?thesis
      by (simp add: wf_shell_def addjob_free [OF True Some])
  qed
qed

lemma wf_deletejob: "wf_shell s \<Longrightarrow> wf_shell (snd (deletejob p s))"
proof -
  assume wf: "wf_shell s"
  have "0 \<le> maxjid jl" for jl
    using maxjid_loop_ge [of 0 jl] by (simp add: maxjid_def)
  then have pos: "0 < maxjid jl + 1" for jl
    by (simp add: add_pos_nonneg [of 1] add.commute)
  have "wf_table ((job_list s)[i := zero_job])" for i
    using wf by (intro wf_table_update) (simp_all add: wf_shell_def zero_job_def)
  with wf pos show ?thesis
    by (simp add: deletejob_def clearjob_zero wf_shell_def Let_def split: option.splits)
qed

lemma wf_set_state: "wf_shell s \<Longrightarrow> wf_shell (set_state i st s)"
proof (cases "i < length (job_list s)")
  case True
  assume wf: "wf_shell s"
  from wf True have "wf_table ((job_list s)[i := (job_list s ! i)\<lparr>state := st\<rparr>])"
    using wf_table_nth [of "job_list s" i] by (intro wf_table_update) (simp_all add: wf_shell_def)
  with wf show ?thesis by (simp add: set_state_def wf_shell_def)
next
  case False
  assume "wf_shell s"
  with False show ?thesis by (simp add: set_state_def wf_shell_def list_update_beyond)
qed

lemma wf_eval_parent: "wf_shell s \<Longrightarrow> wf_shell (fst (eval_parent p bg cl s))"
  using wf_addjob [of s p "bg + 1" cl] by (auto simp: eval_parent_def Let_def)

lemma wf_sigchld_reap: "wf_shell s \<Longrightarrow> sigchld_reap p status s = Inr s' \<Longrightarrow> wf_shell s'"
  by (cases status)
     (auto simp: sigchld_reap_def Let_def wf_set_state wf_deletejob split: option.splits if_splits)

lemma wf_sigchld_handler: "wf_shell s \<Longrightarrow> sigchld_handler pending s = Inr s' \<Longrightarrow> wf_shell s'"
proof (induction pending arbitrary: s)
  case Nil
  then show ?case by simp
next
  case (Cons e pending)
  obtain p status where e: "e = (p, status)" by (cases e)
  show ?case
  proof (cases "0 < p")
    case False
    with Cons.prems e show ?thesis by simp
  next
    case True
    with Cons.prems e obtain t where t: "sigchld_reap p status s = Inr t" "sigchld_handler pending t = Inr s'"
      by (auto split: sum.splits)
    from wf_sigchld_reap [OF Cons.prems(1) t(1)] t(2) show ?thesis by (rule Cons.IH)
  qed
qed

lemma wf_sigint_handler: "wf_shell s \<Longrightarrow> wf_shell (sigint_handler sig s)"
  by (simp add: sigint_handler_def Let_def)

lemma wf_sigtstp_handler: "wf_shell s \<Longrightarrow> sigtstp_handler sig s = Inr s' \<Longrightarrow> wf_shell s'"
  by (auto simp: sigtstp_handler_def Let_def wf_set_state split: option.splits if_splits)

lemma wf_job_lookup: "wf_shell s \<Longrightarrow> job_lookup jm pm tok s = Inr (s', r) \<Longrightarrow> wf_shell s'"
  by (auto simp: job_lookup_def Let_def split: list.splits option.splits if_splits)

lemma wf_execute_fg: "wf_shell s \<Longrightarrow> execute_fg tok s = Inr (s', w) \<Longrightarrow> wf_shell s'"
  by (auto simp: execute_fg_def fg_lookup_def fg_resume_def fg_set_def wf_set_state
           split: sum.splits option.splits prod.splits if_splits bool.splits dest: wf_job_lookup)

lemma wf_execute_bg: "wf_shell s \<Longrightarrow> execute_bg tok s = Inr s' \<Longrightarrow> wf_shell s'"
  by (auto simp: execute_bg_def bg_lookup_def Let_def wf_set_state
           split: sum.splits option.splits prod.splits if_splits dest: wf_job_lookup)

section \<open>At most one foreground slot while no handler interrupts a builtin\<close>

lemma count_state_update_other:
  "state job \<noteq> st \<Longrightarrow> count_state st (jl[i := job]) \<le> count_state st jl"
proof (induction jl arbitrary: i)
  case Nil
  then show ?case by simp
next
  case (Cons x xs)
  show ?case
  proof (cases i)
    case 0
    with Cons.prems show ?thesis by (simp add: count_state_def)
  next
    case (Suc k)
    with Cons.IH [OF Cons.prems, of k] show ?thesis by (simp add: count_state_def)
  qed
qed

lemma count_state_update_le:
  "count_state st (jl[i := job]) \<le> Suc (count_state st jl)"
proof (induction jl arbitrary: i)
  case Nil
  then show ?case by simp
next
  case (Cons x xs)
  show ?case
  proof (cases i)
    case 0
    then show ?thesis by (simp add: count_state_def)
  next
    case (Suc k)
    with Cons.IH [of k] show ?thesis by (simp add: count_state_def)
  qed
qed

lemma count_state_zero: "count_state st jl = 0 \<longleftrightarrow> list_all (\<lambda>j. state j \<noteq> st) jl"
  by (auto simp: count_state_def filter_empty_conv list_all_iff)

lemma list_all_update: "list_all P jl \<Longrightarrow> P job \<Longrightarrow> list_all P (jl[i := job])"
  by (auto simp: list_all_iff dest!: set_update_subset_insert [THEN subsetD])

lemma fgpid_of_fg:
  assumes "\<not> list_all (\<lambda>j. state j \<noteq> FG) jl" and "list_all (\<lambda>j. state j = FG \<longrightarrow> pid j = p) jl"
  shows "fgpid jl = p"
proof -
  from assms(1) have "\<exists>j\<in>set jl. state j = FG" by (auto simp: list_all_iff)
  from first_slot_ex [OF this] obtain i where i: "first_slot (\<lambda>j. state j = FG) jl = Some i" ..
  from first_slot_Some [OF i] assms(2) have "pid (jl ! i) = p"
    by (auto simp: list_all_iff)
  with i show ?thesis by (simp add: fgpid_def)
qed

lemma fgpid_nonzero:
  assumes "\<not> list_all (\<lambda>j. state j \<noteq> FG) jl" and "list_all (\<lambda>j. state j = FG \<longrightarrow> pid j \<noteq> 0) jl"
  shows "fgpid jl \<noteq> 0"
proof -
  from assms(1) have "\<exists>j\<in>set jl. state j = FG" by (auto simp: list_all_iff)
  from first_slot_ex [OF this] obtain i where i: "first_slot (\<lambda>j. state j = FG) jl = Some i" ..
  from first_slot_Some [OF i] assms(2) have "pid (jl ! i) \<noteq> 0"
    by (auto simp: list_all_iff)
  with i show ?thesis by (simp add: fgpid_def)
qed

lemma calmer_refl: "calmer jl jl"
  by (simp add: calmer_def)

lemma calmer_trans: "calmer c b \<Longrightarrow> calmer b a \<Longrightarrow> calmer c a"
  by (auto simp: calmer_def)

lemma calmer_update: "state job \<noteq> FG \<Longrightarrow> calmer (jl[i := job]) jl"
  by (auto simp: calmer_def count_state_update_other intro: list_all_update)

lemma calmer_inv: "calmer jl' jl \<Longrightarrow> fg_inv jl m \<Longrightarrow> fg_inv jl' m"
proof -
  assume c: "calmer jl' jl" and i: "fg_inv jl m"
  from c have le: "count_state FG jl' \<le> count_state FG jl"
    and all: "\<And>P. list_all (\<lambda>j. state j = FG \<longrightarrow> P (pid j)) jl \<Longrightarrow>
           list_all (\<lambda>j. state j = FG \<longrightarrow> P (pid j)) jl'"
    by (auto simp: calmer_def)
  from i le all [of "\<lambda>q. q \<noteq> 0"] have a: "count_state FG jl' \<le> 1"
    "list_all (\<lambda>j. state j = FG \<longrightarrow> pid j \<noteq> 0) jl'"
    by (auto simp: fg_inv_def)
  show ?thesis
  proof (cases m)
    case Prompt
    with i le a show ?thesis by (simp add: fg_inv_def)
  next
    case (WaitEval p)
    with i all [of "\<lambda>q. q = p"] a show ?thesis by (simp add: fg_inv_def)
  next
    case WaitFg
    with a show ?thesis by (simp add: fg_inv_def)
  qed
qed

lemma calmer_deletejob: "calmer (job_list (snd (deletejob p s))) (job_list s)"
  by (auto simp: deletejob_def Let_def clearjob_def calmer_refl calmer_update split: option.splits)

lemma job_list_output [simp]:
  "job_list (sio_puts str s) = job_list s" "job_list (sio_putl v s) = job_list s"
  "job_list (kill p sig s) = job_list s"
  "job_list (set_state i st s) = (job_list s)[i := (job_list s ! i)\<lparr>state := st\<rparr>]"
  by (simp_all add: sio_puts_def sio_putl_def kill_def set_state_def)

lemma calmer_deletejob_after:
  "job_list t = job_list s \<Longrightarrow> calmer (job_list (snd (deletejob p t))) (job_list s)"
  using calmer_deletejob [of p t] by simp

lemma calmer_sigchld_reap: "sigchld_reap p status s = Inr s' \<Longrightarrow> calmer (job_list s') (job_list s)"
proof (cases status)
  case (WStopped sg)
  assume "sigchld_reap p status s = Inr s'"
  with WStopped show ?thesis
    by (auto simp: sigchld_reap_def Let_def calmer_refl calmer_update split: option.splits if_splits)
next
  case (WSignaled sg)
  assume "sigchld_reap p status s = Inr s'"
  with WSignaled show ?thesis
    by (auto simp: sigchld_reap_def Let_def split: option.splits intro!: calmer_deletejob_after)
next
  case (WExited c)
  assume "sigchld_reap p status s = Inr s'"
  with WExited show ?thesis
    using calmer_deletejob [of p s] by (auto simp: sigchld_reap_def Let_def)
qed

lemma calmer_sigchld_handler:
  "sigchld_handler pending s = Inr s' \<Longrightarrow> calmer (job_list s') (job_list s)"
proof (induction pending arbitrary: s)
  case Nil
  then show ?case by (simp add: calmer_refl)
next
  case (Cons e pending)
  obtain p status where e: "e = (p, status)" by (cases e)
  show ?case
  proof (cases "0 < p")
    case False
    with Cons.prems e show ?thesis by (simp add: calmer_refl)
  next
    case True
    with Cons.prems e obtain t where t: "sigchld_reap p status s = Inr t" "sigchld_handler pending t = Inr s'"
      by (auto split: sum.splits)
    from Cons.IH [OF t(2)] calmer_sigchld_reap [OF t(1)] show ?thesis by (rule calmer_trans)
  qed
qed

lemma calmer_sigtstp_handler:
  "sigtstp_handler sig s = Inr s' \<Longrightarrow> calmer (job_list s') (job_list s)"
  by (auto simp: sigtstp_handler_def Let_def calmer_refl calmer_update split: option.splits if_splits)

lemma calmer_sigint_handler: "calmer (job_list (sigint_handler sig s)) (job_list s)"
  by (simp add: sigint_handler_def Let_def calmer_refl)

lemma job_lookup_table:
  "job_lookup jm pm tok s = Inr (s', r) \<Longrightarrow> job_list s' = job_list s"
  by (auto simp: job_lookup_def Let_def split: list.splits option.splits if_splits)

lemma job_lookup_target:
  assumes "job_lookup jm pm tok s = Inr (s', Some (i, p))" and "wf_table (job_list s)"
  shows "i < length (job_list s) \<and> pid (job_list s ! i) \<noteq> 0"
proof -
  from assms(1) have "(\<exists>j. 0 < j \<and> first_slot (\<lambda>x. jid x = j) (job_list s) = Some i) \<or>
      (0 < p \<and> first_slot (\<lambda>x. pid x = p) (job_list s) = Some i)"
    by (auto simp: job_lookup_def Let_def getjobjid_def getjobpid_def
             split: list.splits option.splits if_splits)
  then show ?thesis
  proof
    assume "\<exists>j. 0 < j \<and> first_slot (\<lambda>x. jid x = j) (job_list s) = Some i"
    then obtain j where j: "0 < j" "first_slot (\<lambda>x. jid x = j) (job_list s) = Some i" by blast
    from first_slot_Some [OF j(2)] have i: "i < length (job_list s)" "jid (job_list s ! i) = j"
      by simp_all
    from wf_table_nth [OF assms(2) i(1)] i(2) j(1) have "pid (job_list s ! i) \<noteq> 0"
      by (auto split: if_splits)
    with i(1) show ?thesis by simp
  next
    assume "0 < p \<and> first_slot (\<lambda>x. pid x = p) (job_list s) = Some i"
    then show ?thesis by (auto dest: first_slot_Some)
  qed
qed

lemma fg_inv_execute_fg:
  assumes "execute_fg tok s = Inr (s', w)" and "wf_table (job_list s)" and "fg_inv (job_list s) Prompt"
  shows "fg_inv (job_list s') (after_wait w WaitFg)"
proof (cases "\<exists>s1. fg_lookup tok s = Inr (s1, None)")
  case True
  with assms(1) have "job_list s' = job_list s" "w = Returned"
    by (auto simp: execute_fg_def fg_lookup_def dest: job_lookup_table)
  with assms(3) show ?thesis by (simp add: after_wait_def)
next
  case False
  with assms(1) obtain s1 i p where l: "fg_lookup tok s = Inr (s1, Some (i, p))"
    by (auto simp: execute_fg_def split: sum.splits option.splits prod.splits)
  from l have tab: "job_list s1 = job_list s"
    by (auto simp: fg_lookup_def dest: job_lookup_table)
  from l assms(2) have i: "i < length (job_list s)" "pid (job_list s ! i) \<noteq> 0"
    using job_lookup_target [of _ _ tok s s1 i p] by (auto simp: fg_lookup_def)
  show ?thesis
  proof (cases "state (job_list s ! i) = UNDEF")
    case True
    with assms(1) l tab have "job_list s' = job_list s" "w = Returned"
      by (auto simp: execute_fg_def fg_resume_def)
    with assms(3) show ?thesis by (simp add: after_wait_def)
  next
    case False
    let ?jl = "(job_list s)[i := (job_list s ! i)\<lparr>state := FG\<rparr>]"
    from False assms(1) l tab have s': "job_list s' = ?jl" and w: "w = fg_wait s'"
      by (auto simp: execute_fg_def fg_resume_def fg_set_def split: if_splits)
    from assms(3) have zero: "count_state FG (job_list s) = 0"
      and nz: "list_all (\<lambda>j. state j = FG \<longrightarrow> pid j \<noteq> 0) (job_list s)"
      by (simp_all add: fg_inv_def)
    from count_state_update_le [of FG "job_list s" i] zero have le: "count_state FG ?jl \<le> 1"
      by simp
    from nz i have nz': "list_all (\<lambda>j. state j = FG \<longrightarrow> pid j \<noteq> 0) ?jl"
      by (intro list_all_update) simp_all
    have "\<not> list_all (\<lambda>j. state j \<noteq> FG) ?jl"
      using i(1) by (auto simp: list_all_iff intro!: bexI [of _ "(job_list s ! i)\<lparr>state := FG\<rparr>"] set_update_memI)
    from fgpid_nonzero [OF this nz'] have "w = Suspended"
      by (simp add: w fg_wait_def s')
    with le nz' show ?thesis by (simp add: fg_inv_def after_wait_def s')
  qed
qed

lemma calmer_execute_bg:
  "execute_bg tok s = Inr s' \<Longrightarrow> calmer (job_list s') (job_list s)"
  by (auto simp: execute_bg_def bg_lookup_def Let_def calmer_refl calmer_update
           split: sum.splits option.splits prod.splits if_splits dest!: job_lookup_table)

lemma fg_inv_launch:
  assumes "eval_parent p bg cl s = (s', w)" and "0 < p" and "fg_inv (job_list s) Prompt"
  shows "fg_inv (job_list s') (after_wait w (WaitEval p))"
proof -
  from assms(3) have zero: "count_state FG (job_list s) = 0"
    and nz: "list_all (\<lambda>j. state j = FG \<longrightarrow> pid j \<noteq> 0) (job_list s)"
    by (simp_all add: fg_inv_def)
  from zero have none: "list_all (\<lambda>j. state j \<noteq> FG) (job_list s)"
    by (simp add: count_state_zero)
  from assms(1) have tab: "job_list s' = job_list (snd (addjob p (bg + 1) cl s))"
    using eval_parent_fields(1) [of p bg cl s] by simp
  show ?thesis
  proof (cases "first_slot (\<lambda>j. pid j = 0) (job_list s)")
    case None
    with assms(2) have same: "job_list s' = job_list s" by (simp add: tab addjob_def)
    from none have "fgpid (job_list s) = 0"
      by (auto simp: fgpid_def list_all_iff split: option.splits dest!: first_slot_Some)
    with assms(1,2) same have "w = Returned"
      by (auto simp: eval_parent_def Let_def split: if_splits)
    with assms(3) same show ?thesis by (simp add: after_wait_def)
  next
    case (Some i)
    let ?job = "\<lparr>pid = p, jid = nextjid s, state = bg + 1, cmdline = cl\<rparr>"
    from addjob_free(1) [OF assms(2) Some] have s': "job_list s' = (job_list s)[i := ?job]"
      by (simp add: tab)
    from count_state_update_le [of FG "job_list s" i ?job] zero have le: "count_state FG (job_list s') \<le> 1"
      by (simp add: s')
    from none assms(2) have nz': "list_all (\<lambda>j. state j = FG \<longrightarrow> pid j \<noteq> 0) (job_list s')"
      and only: "list_all (\<lambda>j. state j = FG \<longrightarrow> pid j = p) (job_list s')"
      unfolding s' by (auto simp: list_all_iff dest!: set_update_subset_insert [THEN subsetD])
    show ?thesis
    proof (cases "bg = 0")
      case True
      show ?thesis
      proof (cases w)
        case Suspended
        with le nz' only show ?thesis by (simp add: fg_inv_def after_wait_def)
      next
        case Returned
        with True assms(1) have "fgpid (job_list s') \<noteq> p"
          by (auto simp: eval_parent_def Let_def split: if_splits)
        with fgpid_of_fg [OF _ only] have "list_all (\<lambda>j. state j \<noteq> FG) (job_list s')" by blast
        with Returned nz' le show ?thesis by (simp add: fg_inv_def after_wait_def count_state_zero)
      qed
    next
      case False
      with assms(1) have w: "w = Returned" by (auto simp: eval_parent_def Let_def)
      from False none have "list_all (\<lambda>j. state j \<noteq> FG) (job_list s')"
        unfolding s' by (auto simp: list_all_iff dest!: set_update_subset_insert [THEN subsetD])
      with w nz' le show ?thesis by (simp add: fg_inv_def after_wait_def count_state_zero)
    qed
  qed
qed

lemma atomic_run_inv: "atomic_run s m \<Longrightarrow> wf_shell s \<and> fg_inv (job_list s) m"
proof (induction rule: atomic_run.induct)
  case start
  have "fg_inv (job_list startup) Prompt"
    by (simp add: fg_inv_def count_state_def startup_val zero_job_def list_all_iff)
  with wf_startup show ?case by simp
next
  case (launch s p bg cl s' w)
  from launch.hyps(3) have "s' = fst (eval_parent p bg cl s)" by simp
  with launch.IH wf_eval_parent [of s p bg cl] fg_inv_launch [OF launch.hyps(3) launch.hyps(2)]
  show ?case by simp
next
  case (wake_eval s p)
  then have inv: "fg_inv (job_list s) (WaitEval p)" and ne: "fgpid (job_list s) \<noteq> p"
    by (auto simp: eval_wait_def split: if_splits)
  from inv have only: "list_all (\<lambda>j. state j = FG \<longrightarrow> pid j = p) (job_list s)"
    by (simp add: fg_inv_def)
  from fgpid_of_fg [OF _ only] ne have "list_all (\<lambda>j. state j \<noteq> FG) (job_list s)" by blast
  with inv wake_eval.IH show ?case by (simp add: fg_inv_def count_state_zero)
next
  case (fg s tok s' w)
  with wf_execute_fg [of s tok s' w] fg_inv_execute_fg [of tok s s' w] show ?case
    by (simp add: wf_shell_def)
next
  case (wake_fg s)
  then have inv: "fg_inv (job_list s) WaitFg" and z: "fgpid (job_list s) = 0"
    by (auto simp: fg_wait_def split: if_splits)
  from inv have nz: "list_all (\<lambda>j. state j = FG \<longrightarrow> pid j \<noteq> 0) (job_list s)"
    by (simp add: fg_inv_def)
  from fgpid_nonzero [OF _ nz] z have "list_all (\<lambda>j. state j \<noteq> FG) (job_list s)" by blast
  with inv wake_fg.IH show ?case by (simp add: fg_inv_def count_state_zero)
next
  case (bg s tok s')
  with wf_execute_bg [of s tok s'] calmer_inv [OF calmer_execute_bg] show ?case by blast
next
  case (chld s m pending s')
  with wf_sigchld_handler [of s pending s'] calmer_inv [OF calmer_sigchld_handler] show ?case by blast
next
  case (int s m sig)
  with wf_sigint_handler [of s sig] calmer_inv [OF calmer_sigint_handler] show ?case by blast
next
  case (tstp s m sig s')
  with wf_sigtstp_handler [of s sig s'] calmer_inv [OF calmer_sigtstp_handler] show ?case by blast
qed

lemma atomic_run_one_foreground: "atomic_run s m \<Longrightarrow> count_state FG (job_list s) \<le> 1"
  by (drule atomic_run_inv) (simp add: fg_inv_def)

section \<open>A run that gives two jobs the same id\<close>

lemma first_slot_append:
  "list_all (\<lambda>j. \<not> P j) xs \<Longrightarrow> P y \<Longrightarrow> first_slot P (xs @ y # ys) = Some (length xs)"
  by (induction xs) simp_all

lemma launch_at:
  assumes "0 < p" and "list_all (\<lambda>j. pid j \<noteq> 0) xs" and "job_list s = xs @ zero_job # ys"
  shows "job_list (fst (eval_parent p bg cl s)) =
           xs @ \<lparr>pid = p, jid = nextjid s, state = bg + 1, cmdline = cl\<rparr> # ys"
    and "nextjid (fst (eval_parent p bg cl s)) = (if nextjid s + 1 > MAXJOBS then 1 else nextjid s + 1)"
proof -
  have "first_slot (\<lambda>j. pid j = 0) (job_list s) = Some (length xs)"
    unfolding assms(3) using assms(2)
    by (intro first_slot_append) (simp_all add: zero_job_def)
  from addjob_free(1,2) [OF assms(1) this, of "bg + 1" cl]
  show "job_list (fst (eval_parent p bg cl s)) =
           xs @ \<lparr>pid = p, jid = nextjid s, state = bg + 1, cmdline = cl\<rparr> # ys"
    and "nextjid (fst (eval_parent p bg cl s)) = (if nextjid s + 1 > MAXJOBS then 1 else nextjid s + 1)"
    by (simp_all add: eval_parent_fields assms(3))
qed

lemma launch_fill:
  assumes "list_all (\<lambda>p. 0 < p) ps"
    and "list_all (\<lambda>j. pid j \<noteq> 0) xs"
    and "job_list s = xs @ replicate (length ps) zero_job @ ys"
    and "nextjid s + int (length ps) \<le> MAXJOBS"
  shows "job_list (launch_bg ps cl s) = xs @ fill ps (nextjid s) cl @ ys \<and>
         nextjid (launch_bg ps cl s) = nextjid s + int (length ps)"
  using assms
proof (induction ps arbitrary: xs s)
  case Nil
  then show ?case by (simp add: launch_bg_def)
next
  case (Cons p ps)
  let ?job = "\<lparr>pid = p, jid = nextjid s, state = BG, cmdline = cl\<rparr>"
  let ?s = "fst (eval_parent p 1 cl s)"
  have p: "0 < p" using Cons.prems(1) by simp
  have tab: "job_list s = xs @ zero_job # replicate (length ps) zero_job @ ys"
    using Cons.prems(3) by simp
  from launch_at [OF p Cons.prems(2) tab, of 1 cl] Cons.prems(4)
  have s1: "job_list ?s = (xs @ [?job]) @ replicate (length ps) zero_job @ ys"
    and n1: "nextjid ?s = nextjid s + 1"
    by simp_all
  have "job_list (launch_bg ps cl ?s) = (xs @ [?job]) @ fill ps (nextjid ?s) cl @ ys \<and>
         nextjid (launch_bg ps cl ?s) = nextjid ?s + int (length ps)"
    using Cons.prems p n1 by (intro Cons.IH s1) simp_all
  then show ?case by (simp add: launch_bg_def n1)
qed

lemma dup_1_val:
  "job_list dup_1 = fill [101, 102, 103, 104, 105, 106, 107, 108, 109, 110, 111, 112, 113, 114, 115] 1
                      ''/bin/sleep 100 &'' @ [zero_job]"
  "nextjid dup_1 = 16"
proof -
  have tab: "job_list startup = [] @ replicate (length [101, 102, 103, 104, 105, 106, 107, 108, 109, 110, 111, 112, 113, 114, 115 :: int]) zero_job @ [zero_job]"
    by (simp add: startup_val numeral_eq_Suc)
  have n: "nextjid startup + int (length [101, 102, 103, 104, 105, 106, 107, 108, 109, 110, 111, 112, 113, 114, 115 :: int]) \<le> MAXJOBS"
    by (simp add: startup_val)
  from launch_fill [OF _ _ tab n, of "''/bin/sleep 100 &''"]
  show "job_list dup_1 = fill [101, 102, 103, 104, 105, 106, 107, 108, 109, 110, 111, 112, 113, 114, 115] 1
                      ''/bin/sleep 100 &'' @ [zero_job]"
    and "nextjid dup_1 = 16"
    by (simp_all add: dup_1_def startup_val)
qed

lemma dup_2_val:
  "job_list dup_2 = [bg_sleep 101 1] @ zero_job #
      fill [103, 104, 105, 106, 107, 108, 109, 110, 111, 112, 113, 114, 115] 3 ''/bin/sleep 100 &''
      @ [zero_job]"
  "nextjid dup_2 = 16"
  by (simp_all add: dup_2_def deletejob_def dup_1_val clearjob_def zero_job_def bg_sleep_def
        maxjid_def Let_def)

lemma dup_3_val:
  "job_list dup_3 = bg_sleep 101 1 # bg_sleep 116 16 #
      fill [103, 104, 105, 106, 107, 108, 109, 110, 111, 112, 113, 114, 115] 3 ''/bin/sleep 100 &''
      @ [bg_sleep 117 1]"
  "nextjid dup_3 = 2"
proof -
  let ?a = "fst (eval_parent 116 1 ''/bin/sleep 100 &'' dup_2)"
  let ?xs = "[bg_sleep 101 1, bg_sleep 116 16] @
      fill [103, 104, 105, 106, 107, 108, 109, 110, 111, 112, 113, 114, 115] 3 ''/bin/sleep 100 &''"
  have p: "(0::int) < 116" "(0::int) < 117" by simp_all
  have o1: "list_all (\<lambda>j. pid j \<noteq> 0) [bg_sleep 101 1]" by (simp add: bg_sleep_def)
  from launch_at [OF p(1) o1 dup_2_val(1), of 1 "''/bin/sleep 100 &''"]
  have a: "job_list ?a = ?xs @ zero_job # []" "nextjid ?a = 1"
    by (simp_all add: dup_2_val(2) bg_sleep_def)
  have o2: "list_all (\<lambda>j. pid j \<noteq> 0) ?xs" by (simp add: bg_sleep_def)
  have d: "dup_3 = fst (eval_parent 117 1 ''/bin/sleep 100 &'' ?a)"
    by (simp add: dup_3_def launch_bg_def)
  from launch_at [OF p(2) o2 a(1), of 1 "''/bin/sleep 100 &''"]
  show "job_list dup_3 = bg_sleep 101 1 # bg_sleep 116 16 #
      fill [103, 104, 105, 106, 107, 108, 109, 110, 111, 112, 113, 114, 115] 3 ''/bin/sleep 100 &''
      @ [bg_sleep 117 1]" and "nextjid dup_3 = 2"
    unfolding d [symmetric] by (simp_all add: a(2) bg_sleep_def)
qed

lemma duplicate_job_ids:
  "pid (job_list dup_3 ! 0) = 101 \<and> jid (job_list dup_3 ! 0) = 1 \<and>
   pid (job_list dup_3 ! 15) = 117 \<and> jid (job_list dup_3 ! 15) = 1 \<and>
   getjobjid (job_list dup_3) 1 = Some 0"
  by (simp add: dup_3_val bg_sleep_def getjobjid_def)

section \<open>\<^verbatim>\<open>fg\<close> and \<^verbatim>\<open>bg\<close> with a number beyond 32 bits\<close>

text \<open>
  With jobs 1 and 2 in the table, \<^verbatim>\<open>bg %4294967297\<close> is \<^verbatim>\<open>bg %1\<close> and \<^verbatim>\<open>fg %4294967296\<close>
  is \<^verbatim>\<open>fg %0\<close>.
\<close>

lemma builtins_beyond_32_bits:
  "(\<exists>s'. execute_bg (builtin_tok ''bg'' ''%4294967297'') two_jobs = Inr s' \<and>
      job_list s' = job_list two_jobs \<and>
      sio s' = sio two_jobs @ ''[1] (101) /bin/sleep 100 &\<newline>'') \<and>
   execute_fg (builtin_tok ''fg'' ''%4294967296'') two_jobs =
     Inr (two_jobs\<lparr>sio := sio two_jobs @ ''fg: argument must be a nonzero %%jobid\<newline>''\<rparr>, Returned)"
  unfolding two_jobs_val
  by (simp add: execute_bg_def execute_fg_def bg_lookup_def fg_lookup_def job_lookup_def
        builtin_tok_def argc_def atoi_keeps_low_32_bits getjobjid_def bg_sleep_def set_state_def
        sio_puts_def sio_putl_def ltoa_vals Let_def)

section \<open>The seventeenth process has no slot\<close>

lemma seventeen_jobs_untracked: "getjobpid (job_list seventeen_jobs) 117 = None"
proof -
  have add: "addjob 117 2 ''/bin/sleep 100 &'' sixteen_jobs =
      (0, sixteen_jobs\<lparr>stdio := stdio sixteen_jobs @ ''Tried to create too many jobs\<newline>''\<rparr>)"
    by (rule addjob_no_free [OF _ sixteen_jobs_full]) simp
  have tab: "job_list seventeen_jobs = job_list sixteen_jobs"
    by (simp add: seventeen_jobs_def eval_parent_fields add)
  show ?thesis
    using sixteen_jobs_pids by (auto simp: tab getjobpid_def first_slot_None_iff)
qed

section \<open>The claims\<close>

subsection \<open>C1: \<^verbatim>\<open>fg\<close> and \<^verbatim>\<open>bg\<close> with a job id that matches no job\<close>

text \<open>
  C1 says that \<^verbatim>\<open>fg %n\<close> and \<^verbatim>\<open>bg %n\<close>, for a number \<open>n\<close> that is no job's id, print a
  "job not found" message, leave the job table as it is and do not crash. The code
  does otherwise: whenever the argument after \<^verbatim>\<open>%\<close> converts to a number other than 0
  and \<^verbatim>\<open>getjobjid\<close> returns \<^verbatim>\<open>NULL\<close>, both builtins read \<^verbatim>\<open>target_job->pid\<close> through the
  null pointer before they reach their test \<^verbatim>\<open>!target_job\<close>, so no message is printed.
  The number is the \<^verbatim>\<open>int\<close> that \<^verbatim>\<open>atoi\<close> returns: an argument beyond 32 bits names the
  job whose id its low 32 bits spell (\<open>atoi_keeps_low_32_bits\<close>), and is outside the
  hypotheses when that job exists.
\<close>

theorem fg_bg_missing_jid_faults:
  assumes "argv tok = [a0, CHR ''%'' # num]"
    and "atoi num \<noteq> 0"
    and "getjobjid (job_list s) (atoi num) = None"
  shows "execute_fg tok s = Inl NullDeref \<and> execute_bg tok s = Inl NullDeref"
proof -
  have "job_lookup jm pm tok s = Inl NullDeref" for jm pm
    using assms by (simp add: job_lookup_def argc_def Let_def)
  then show ?thesis
    by (simp add: execute_fg_def execute_bg_def fg_lookup_def bg_lookup_def)
qed

theorem fg_bg_missing_jid_faults_witness:
  "argv (builtin_tok ''fg'' ''%5'') = [''fg'', CHR ''%'' # ''5''] \<and>
   argv (builtin_tok ''bg'' ''%5'') = [''bg'', CHR ''%'' # ''5''] \<and>
   atoi ''5'' \<noteq> 0 \<and>
   getjobjid (job_list two_jobs) (atoi ''5'') = None \<and>
   execute_fg (builtin_tok ''fg'' ''%5'') two_jobs = Inl NullDeref \<and>
   execute_bg (builtin_tok ''bg'' ''%5'') two_jobs = Inl NullDeref"
proof -
  have f: "argv (builtin_tok ''fg'' ''%5'') = [''fg'', CHR ''%'' # ''5'']"
    and b: "argv (builtin_tok ''bg'' ''%5'') = [''bg'', CHR ''%'' # ''5'']"
    by (simp_all add: builtin_tok_def)
  have h2: "atoi ''5'' \<noteq> 0" by (simp add: atoi_vals)
  have h3: "getjobjid (job_list two_jobs) (atoi ''5'') = None"
    unfolding two_jobs_val
    by (simp add: atoi_vals getjobjid_def bg_sleep_def zero_job_def first_slot_replicate)
  from fg_bg_missing_jid_faults [OF f h2 h3] fg_bg_missing_jid_faults [OF b h2 h3] f b h2 h3
  show ?thesis by blast
qed

subsection \<open>C2: the child's message when \<^verbatim>\<open>execve\<close> fails\<close>

text \<open>
  C2 says that the child whose \<^verbatim>\<open>execve\<close> fails prints \<^verbatim>\<open><argv0>: Command not found.\<close> and
  a newline, then exits with status 0. The exit status is 0, but the text the code
  writes after \<^verbatim>\<open>argv[0]\<close> is \<^verbatim>\<open>s: Command not found.\<close>: for every first argument the line
  printed carries a letter \<^verbatim>\<open>s\<close> before the colon and differs from the line of the claim.
\<close>

theorem command_not_found_text:
  "eval_child \<lparr>argv = a0 # rest, infile = fin, outfile = fout, builtins = b\<rparr> None None True
     = Inr (a0 @ ''s: Command not found.\<newline>'', Exit 0) \<and>
   a0 @ ''s: Command not found.\<newline>'' \<noteq> a0 @ '': Command not found.\<newline>''"
  by (simp add: eval_child_def split: option.splits)

subsection \<open>C3: at most one foreground slot\<close>

text \<open>
  C3 says that no interleaving of \<^verbatim>\<open>eval\<close>, the builtins and the handlers reaches a job
  table with two slots in state \<^verbatim>\<open>FG\<close>. The run \<open>fg_race_1\<close> \<open>\<dots>\<close> \<open>fg_race_4\<close> reaches
  one: \<^verbatim>\<open>execute_fg\<close> runs with no signal blocked, \<^verbatim>\<open>sigchld_handler\<close> clears the target
  slot between the tests of \<^verbatim>\<open>execute_fg\<close> and its store of \<^verbatim>\<open>FG\<close>, the store marks the
  free slot 1 as foreground, \<^verbatim>\<open>fgpid\<close> returns that slot's \<^verbatim>\<open>pid\<close> 0 so the wait loop is
  not entered, and the next foreground command is given slot 0. The source states the
  bound itself (\<^verbatim>\<open>At most 1 job can be in the FG state\<close>), and the bound does hold in every
  run that delivers no signal inside a builtin (\<open>atomic_run_one_foreground\<close> above).
\<close>

theorem two_foreground_slots_after_fg_race:
  "sigchld_handler [(101, WExited 0)] two_jobs = Inr fg_race_1 \<and>
   fg_lookup (builtin_tok ''fg'' ''%2'') fg_race_1 = Inr (fg_race_1, Some (1, 102)) \<and>
   fg_resume 1 102 fg_race_1 = (fg_race_1, True) \<and>
   sigchld_handler [(102, WExited 0)] fg_race_1 = Inr fg_race_2 \<and>
   fg_wait fg_race_3 = Returned \<and>
   eval_parent 103 0 ''/bin/sleep 100'' fg_race_3 = (fg_race_4, Suspended) \<and>
   map pid (take 2 (job_list fg_race_4)) = [103, 0] \<and>
   map state (take 2 (job_list fg_race_4)) = [FG, FG] \<and>
   count_state FG (job_list fg_race_4) = 2"
proof -
  have a: "fg_lookup (builtin_tok ''fg'' ''%2'') fg_race_1 = Inr (fg_race_1, Some (1, 102))"
    unfolding fg_race_1_val [THEN conjunct2]
    by (simp add: fg_lookup_def job_lookup_def builtin_tok_def argc_def atoi_vals getjobjid_def
          zero_job_def bg_sleep_def)
  have b: "fg_resume 1 102 fg_race_1 = (fg_race_1, True)"
    unfolding fg_race_1_val [THEN conjunct2]
    by (simp add: fg_resume_def bg_sleep_def)
  have c: "fg_wait fg_race_3 = Returned"
    unfolding fg_race_3_val by (simp add: fg_wait_def fgpid_def zero_job_def)
  have d: "map pid (take 2 (job_list fg_race_4)) = [103, 0]"
    "map state (take 2 (job_list fg_race_4)) = [FG, FG]"
    "count_state FG (job_list fg_race_4) = 2"
    unfolding fg_race_4_val [THEN conjunct2]
    by (simp_all add: count_state_def zero_job_def numeral_eq_Suc)
  from fg_race_1_val fg_race_2_val fg_race_4_val a b c d show ?thesis by blast
qed

subsection \<open>C4: the next job id and the largest id in use\<close>

text \<open>
  C4 says that \<^verbatim>\<open>nextjid\<close> exceeds every job id in use and wraps to 1 only when it would
  exceed \<^verbatim>\<open>MAXJID\<close>. \<^verbatim>\<open>addjob\<close> wraps it when it exceeds \<^verbatim>\<open>MAXJOBS\<close>: after sixteen
  background launches from start-up the counter is 1 while job 16 is in the table, far
  below \<^verbatim>\<open>MAXJID\<close>. The early wrap lets \<^verbatim>\<open>addjob\<close> give an id that is in use
  (\<open>duplicate_job_ids\<close> above).
\<close>

theorem nextjid_wraps_at_MAXJOBS:
  "nextjid sixteen_jobs = 1 \<and> maxjid (job_list sixteen_jobs) = 16 \<and>
   nextjid sixteen_jobs \<le> maxjid (job_list sixteen_jobs) \<and>
   maxjid (job_list sixteen_jobs) + 1 < MAXJID"
  by (simp add: sixteen_jobs_facts MAXJID_def)

subsection \<open>C5: \<^verbatim>\<open>deletejob\<close>\<close>

text \<open>
  C5: for a process id \<open>p\<close> (positive, as every id \<^verbatim>\<open>addjob\<close> admits) that some slot
  holds, \<^verbatim>\<open>deletejob\<close> clears the first slot holding it, returns 1 and sets \<^verbatim>\<open>nextjid\<close> to
  one more than the largest id of the slots still occupied, which is 1 when none is;
  for a \<open>p\<close> that no slot holds it returns 0 and changes nothing. The table is any
  well-formed one; every table the program builds is (\<open>wf_startup\<close>, \<open>wf_addjob\<close>,
  \<open>wf_deletejob\<close>, \<open>wf_set_state\<close> and the lemmas after them).
\<close>

theorem deletejob_correct:
  assumes "0 < p" and "wf_table (job_list s)"
  shows "(p \<in> pid ` set (job_list s) \<longrightarrow>
            (\<exists>i < length (job_list s).
               pid (job_list s ! i) = p \<and> (\<forall>k<i. pid (job_list s ! k) \<noteq> p) \<and>
               deletejob p s =
                 (1, s\<lparr>job_list := (job_list s)[i := zero_job],
                       nextjid := max_occupied_jid ((job_list s)[i := zero_job]) + 1\<rparr>))) \<and>
         (p \<notin> pid ` set (job_list s) \<longrightarrow> deletejob p s = (0, s)) \<and>
         ((\<forall>j\<in>set (job_list (snd (deletejob p s))). pid j = 0) \<longrightarrow> p \<in> pid ` set (job_list s) \<longrightarrow>
            nextjid (snd (deletejob p s)) = 1)"
proof (intro conjI impI)
  assume "p \<notin> pid ` set (job_list s)"
  then have "first_slot (\<lambda>j. pid j = p) (job_list s) = None"
    by (auto simp: first_slot_None_iff)
  then show "deletejob p s = (0, s)" by (simp add: deletejob_def)
next
  assume "p \<in> pid ` set (job_list s)"
  then obtain i where i: "first_slot (\<lambda>j. pid j = p) (job_list s) = Some i"
    using first_slot_ex [of "job_list s" "\<lambda>j. pid j = p"] by auto
  note fs = first_slot_Some [OF i]
  let ?jl = "(job_list s)[i := zero_job]"
  have wf': "wf_table ?jl"
    using assms(2) by (auto simp: wf_table_def zero_job_def dest!: set_update_subset_insert [THEN subsetD])
  have del: "deletejob p s = (1, s\<lparr>job_list := ?jl, nextjid := max_occupied_jid ?jl + 1\<rparr>)"
    using assms(1) i by (simp add: deletejob_def clearjob_zero maxjid_occupied [OF wf'] Let_def)
  with fs show "\<exists>i < length (job_list s).
               pid (job_list s ! i) = p \<and> (\<forall>k<i. pid (job_list s ! k) \<noteq> p) \<and>
               deletejob p s =
                 (1, s\<lparr>job_list := (job_list s)[i := zero_job],
                       nextjid := max_occupied_jid ((job_list s)[i := zero_job]) + 1\<rparr>)"
    by blast
  assume "\<forall>j\<in>set (job_list (snd (deletejob p s))). pid j = 0"
  then have "filter (\<lambda>j. pid j \<noteq> 0) ?jl = []" using del by (simp add: filter_empty_conv)
  then show "nextjid (snd (deletejob p s)) = 1" using del by (simp add: max_occupied_jid_def)
qed

theorem deletejob_correct_witness:
  "0 < (102::int) \<and> wf_table (job_list two_jobs) \<and> 102 \<in> pid ` set (job_list two_jobs) \<and>
   (\<exists>i < length (job_list two_jobs).
       pid (job_list two_jobs ! i) = 102 \<and>
       deletejob 102 two_jobs =
         (1, two_jobs\<lparr>job_list := (job_list two_jobs)[i := zero_job],
                       nextjid := max_occupied_jid ((job_list two_jobs)[i := zero_job]) + 1\<rparr>)) \<and>
   nextjid (snd (deletejob 102 two_jobs)) = 2 \<and>
   0 < (55::int) \<and> 55 \<notin> pid ` set (job_list two_jobs) \<and> deletejob 55 two_jobs = (0, two_jobs)"
proof -
  have h1: "0 < (102::int)" by simp
  have h2: "wf_table (job_list two_jobs)"
    unfolding two_jobs_val by (simp add: wf_table_def bg_sleep_def zero_job_def)
  have h3: "102 \<in> pid ` set (job_list two_jobs)"
    unfolding two_jobs_val by (simp add: bg_sleep_def)
  have h4: "nextjid (snd (deletejob 102 two_jobs)) = 2"
    unfolding two_jobs_val
    by (simp add: deletejob_def clearjob_def bg_sleep_def maxjid_def maxjid_replicate_zero)
  have h5: "0 < (55::int)" by simp
  have h6: "55 \<notin> pid ` set (job_list two_jobs)"
    unfolding two_jobs_val by (simp add: bg_sleep_def zero_job_def)
  from deletejob_correct [OF h1 h2] deletejob_correct [OF h5 h2] h1 h2 h3 h4 h5 h6
  show ?thesis by blast
qed

subsection \<open>C6: the child-status handler on a terminated child\<close>

text \<open>
  When the process reaped is the job of slot \<open>i\<close>, the handler does what C6 says: a
  child killed by signal \<open>sg\<close> makes it print the line
  \<^verbatim>\<open>Job [<id>] (<pid>) terminated by signal <sg>\<close> and clear the slot; a child that exited
  makes it clear the slot and print nothing. In both cases the loop goes on with the
  next pending child. The numbers are written by \<^verbatim>\<open>sio_putl\<close>, in decimal when they are
  not negative (\<open>sio_ltoa_decimal\<close>).
\<close>

lemma sigchld_reap_terminated:
  assumes "getjobpid (job_list s) p = Some i"
  shows "(\<exists>s'. sigchld_reap p (WSignaled sg) s = Inr s' \<and>
            (\<forall>pending. sigchld_handler ((p, WSignaled sg) # pending) s = sigchld_handler pending s') \<and>
            sio s' = sio s @ ''Job ['' @ sio_ltoa (jid (job_list s ! i)) @ ''] ('' @ sio_ltoa p
                       @ '') terminated by signal '' @ sio_ltoa sg @ ''\<newline>'' \<and>
            job_list s' = (job_list s)[i := zero_job] \<and> pid (job_list s' ! i) = 0) \<and>
         (\<exists>s'. sigchld_reap p (WExited c) s = Inr s' \<and>
            (\<forall>pending. sigchld_handler ((p, WExited c) # pending) s = sigchld_handler pending s') \<and>
            sio s' = sio s \<and> stdio s' = stdio s \<and>
            job_list s' = (job_list s)[i := zero_job] \<and> pid (job_list s' ! i) = 0)"
proof -
  note g = getjobpid_Some [OF assms]
  have z: "pid (((job_list s)[i := zero_job]) ! i) = 0"
    using g by (simp add: zero_job_def)
  have sig: "sigchld_reap p (WSignaled sg) s =
      Inr (snd (deletejob p (s\<lparr>sio := sio s @ ''Job ['' @ sio_ltoa (jid (job_list s ! i)) @ ''] ('' @ sio_ltoa p
                       @ '') terminated by signal '' @ sio_ltoa sg @ ''\<newline>''\<rparr>)))"
    using assms g by (simp add: sigchld_reap_def sio_puts_def sio_putl_def)
  have ex: "sigchld_reap p (WExited c) s = Inr (snd (deletejob p s))"
    by (simp add: sigchld_reap_def)
  have del: "\<And>t. job_list t = job_list s \<Longrightarrow>
       snd (deletejob p t) = t\<lparr>job_list := (job_list s)[i := zero_job],
                               nextjid := maxjid ((job_list s)[i := zero_job]) + 1\<rparr>"
    using g by (simp add: deletejob_def clearjob_zero Let_def)
  show ?thesis
    using g z by (simp add: sig ex del)
qed

lemma sigchld_reap_terminated_example:
  "getjobpid (job_list two_jobs) 102 = Some 1 \<and>
   (\<exists>s'. sigchld_reap 102 (WSignaled 2) two_jobs = Inr s' \<and>
      sio s' = sio two_jobs @ ''Job [2] (102) terminated by signal 2\<newline>'' \<and>
      job_list s' = (job_list two_jobs)[1 := zero_job]) \<and>
   (\<exists>s'. sigchld_reap 102 (WExited 0) two_jobs = Inr s' \<and>
      sio s' = sio two_jobs \<and> job_list s' = (job_list two_jobs)[1 := zero_job])"
proof -
  have h: "getjobpid (job_list two_jobs) 102 = Some 1"
    unfolding two_jobs_val by (simp add: getjobpid_def bg_sleep_def)
  have j: "jid (job_list two_jobs ! 1) = 2"
    unfolding two_jobs_val by (simp add: bg_sleep_def)
  note d = ltoa_vals
  from sigchld_reap_terminated [OF h, of 2 0] h show ?thesis
    unfolding j d by auto
qed

text \<open>
  C6 says this of every status the handler reaps. The handler also reaps children that
  have no slot (\<^verbatim>\<open>eval\<close> forks before \<^verbatim>\<open>addjob\<close> refuses a seventeenth job), and for
  a reaped process without a slot that was killed by a signal it prints no line: it
  reads \<^verbatim>\<open>job->jid\<close> with \<^verbatim>\<open>job == NULL\<close> and the shell faults, whatever is still pending.
  \<^verbatim>\<open>sigtstp_handler\<close> takes the id for its line from \<^verbatim>\<open>pid2jid\<close>, which follows no pointer.
  A process without a slot that exited is passed over in silence, as C6 says.
\<close>

theorem sigchld_signaled_without_slot_faults:
  assumes "0 < p" and "getjobpid (job_list s) p = None"
  shows "sigchld_reap p (WSignaled sg) s = Inl NullDeref \<and>
         sigchld_handler ((p, WSignaled sg) # pending) s = Inl NullDeref \<and>
         sigchld_reap p (WExited c) s = Inr s \<and>
         sigchld_handler ((p, WExited c) # pending) s = sigchld_handler pending s"
proof -
  from assms have none: "first_slot (\<lambda>j. pid j = p) (job_list s) = None"
    by (simp add: getjobpid_def)
  have sig: "sigchld_reap p (WSignaled sg) s = Inl NullDeref"
    using assms(2) by (simp add: sigchld_reap_def)
  have ex: "sigchld_reap p (WExited c) s = Inr s"
    using none by (simp add: sigchld_reap_def deletejob_def)
  from assms(1) sig ex show ?thesis by simp
qed

theorem sigchld_signaled_without_slot_faults_witness:
  "0 < (117::int) \<and> getjobpid (job_list seventeen_jobs) 117 = None \<and>
   sigchld_reap 117 (WSignaled 9) seventeen_jobs = Inl NullDeref \<and>
   sigchld_handler [(117, WSignaled 9), (101, WExited 0)] seventeen_jobs = Inl NullDeref \<and>
   sigchld_reap 117 (WExited 0) seventeen_jobs = Inr seventeen_jobs"
proof -
  have h: "0 < (117::int)" by simp
  from sigchld_signaled_without_slot_faults [OF h seventeen_jobs_untracked, of 9 "[(101, WExited 0)]" 0]
    h seventeen_jobs_untracked
  show ?thesis by blast
qed

subsection \<open>C7: one stop notification\<close>

text \<open>
  C7: for the job of slot \<open>k\<close>, a stop event changes nothing and prints nothing when the
  state is already \<^verbatim>\<open>ST\<close>; it prints the stop line and sets \<^verbatim>\<open>ST\<close> when it is not; and
  when the job is the foreground job, \<^verbatim>\<open>sigtstp_handler\<close> prints the line once, stops the
  job, and the stop event that \<^verbatim>\<open>sigchld_handler\<close> reaps afterwards leaves the shell as it
  is.
\<close>

theorem stop_notification_once:
  assumes "getjobpid (job_list s) q = Some k"
  shows "(state (job_list s ! k) = ST \<longrightarrow>
            sigchld_reap q (WStopped sg) s = Inr s \<and>
            (\<forall>pending. sigchld_handler ((q, WStopped sg) # pending) s = sigchld_handler pending s)) \<and>
         (state (job_list s ! k) \<noteq> ST \<longrightarrow>
            (\<exists>s'. sigchld_reap q (WStopped sg) s = Inr s' \<and>
               sio s' = sio s @ ''Job ['' @ sio_ltoa (jid (job_list s ! k)) @ ''] ('' @ sio_ltoa q
                          @ '') stopped by signal '' @ sio_ltoa sg @ ''\<newline>'' \<and>
               job_list s' = (job_list s)[k := (job_list s ! k)\<lparr>state := ST\<rparr>])) \<and>
         (q = fgpid (job_list s) \<longrightarrow>
            (\<exists>s1. sigtstp_handler sig s = Inr s1 \<and>
               sio s1 = sio s @ ''Job ['' @ sio_ltoa (jid (job_list s ! k)) @ ''] ('' @ sio_ltoa q
                          @ '') stopped by signal '' @ sio_ltoa sig @ ''\<newline>'' \<and>
               job_list s1 = (job_list s)[k := (job_list s ! k)\<lparr>state := ST\<rparr>] \<and>
               kills s1 = kills s @ [(- q, sig)] \<and>
               sigchld_handler [(q, WStopped sg)] s1 = Inr s1))"
proof -
  note g = getjobpid_Some [OF assms]
  have a: "state (job_list s ! k) = ST \<Longrightarrow> sigchld_reap q (WStopped sg) s = Inr s"
    using assms by (simp add: sigchld_reap_def)
  have b: "state (job_list s ! k) \<noteq> ST \<Longrightarrow>
      sigchld_reap q (WStopped sg) s =
        Inr (s\<lparr>sio := sio s @ ''Job ['' @ sio_ltoa (jid (job_list s ! k)) @ ''] ('' @ sio_ltoa q
                          @ '') stopped by signal '' @ sio_ltoa sg @ ''\<newline>'',
               job_list := (job_list s)[k := (job_list s ! k)\<lparr>state := ST\<rparr>]\<rparr>)"
    using assms g by (simp add: sigchld_reap_def sio_puts_def sio_putl_def set_state_def)
  have j: "pid2jid (job_list s) q = jid (job_list s ! k)"
    using g by (simp add: pid2jid_def)
  let ?s1 = "s\<lparr>sio := sio s @ ''Job ['' @ sio_ltoa (jid (job_list s ! k)) @ ''] ('' @ sio_ltoa q
                          @ '') stopped by signal '' @ sio_ltoa sig @ ''\<newline>'',
               job_list := (job_list s)[k := (job_list s ! k)\<lparr>state := ST\<rparr>],
               kills := kills s @ [(- q, sig)]\<rparr>"
  have c: "q = fgpid (job_list s) \<Longrightarrow> sigtstp_handler sig s = Inr ?s1"
    using assms g j by (simp add: sigtstp_handler_def Let_def sio_puts_def sio_putl_def set_state_def kill_def)
  have fs: "first_slot (\<lambda>j. pid j = q) ((job_list s)[k := (job_list s ! k)\<lparr>state := ST\<rparr>]) = Some k"
  proof -
    have "\<And>P xs i. first_slot (\<lambda>j. pid j = q) xs = Some i \<Longrightarrow>
        first_slot (\<lambda>j. pid j = q) (xs[i := (xs ! i)\<lparr>state := ST\<rparr>]) = Some i"
    proof -
      fix xs :: "job_t list" and i
      show "first_slot (\<lambda>j. pid j = q) xs = Some i \<Longrightarrow>
        first_slot (\<lambda>j. pid j = q) (xs[i := (xs ! i)\<lparr>state := ST\<rparr>]) = Some i"
      proof (induction xs arbitrary: i)
        case Nil
        then show ?case by simp
      next
        case (Cons x xs)
        then show ?case by (cases i) (auto split: if_splits)
      qed
    qed
    from this [OF g [THEN conjunct2, THEN conjunct1]] show ?thesis .
  qed
  have d: "sigchld_reap q (WStopped sg) ?s1 = Inr ?s1"
    using g fs by (simp add: sigchld_reap_def getjobpid_def)
  have h: "sigchld_handler [(q, WStopped sg)] ?s1 = Inr ?s1"
  proof -
    have "0 < q" using g by simp
    then show ?thesis
      by (simp only: sigchld_handler.simps d if_True sum.case)
  qed
  show ?thesis
  proof (intro conjI impI)
    assume st: "state (job_list s ! k) = ST"
    show "sigchld_reap q (WStopped sg) s = Inr s" by (rule a [OF st])
    show "\<forall>pending. sigchld_handler ((q, WStopped sg) # pending) s = sigchld_handler pending s"
      using g by (simp add: a [OF st])
  next
    assume "state (job_list s ! k) \<noteq> ST"
    from b [OF this] show "\<exists>s'. sigchld_reap q (WStopped sg) s = Inr s' \<and>
               sio s' = sio s @ ''Job ['' @ sio_ltoa (jid (job_list s ! k)) @ ''] ('' @ sio_ltoa q
                          @ '') stopped by signal '' @ sio_ltoa sg @ ''\<newline>'' \<and>
               job_list s' = (job_list s)[k := (job_list s ! k)\<lparr>state := ST\<rparr>]"
      by simp
  next
    assume "q = fgpid (job_list s)"
    from c [OF this] h show "\<exists>s1. sigtstp_handler sig s = Inr s1 \<and>
               sio s1 = sio s @ ''Job ['' @ sio_ltoa (jid (job_list s ! k)) @ ''] ('' @ sio_ltoa q
                          @ '') stopped by signal '' @ sio_ltoa sig @ ''\<newline>'' \<and>
               job_list s1 = (job_list s)[k := (job_list s ! k)\<lparr>state := ST\<rparr>] \<and>
               kills s1 = kills s @ [(- q, sig)] \<and>
               sigchld_handler [(q, WStopped sg)] s1 = Inr s1"
      by (intro exI [of _ ?s1]) simp
  qed
qed

theorem stop_notification_once_witness:
  "getjobpid (job_list fg_job) 101 = Some 0 \<and>
   state (job_list fg_job ! 0) \<noteq> ST \<and>
   101 = fgpid (job_list fg_job) \<and>
   (\<exists>s1. sigtstp_handler SIGTSTP fg_job = Inr s1 \<and>
      sio s1 = sio fg_job @ ''Job [1] (101) stopped by signal 20\<newline>'' \<and>
      state (job_list s1 ! 0) = ST \<and>
      sigchld_handler [(101, WStopped SIGTSTP)] s1 = Inr s1) \<and>
   (\<exists>s'. sigchld_reap 101 (WStopped 19) fg_job = Inr s' \<and>
      sio s' = sio fg_job @ ''Job [1] (101) stopped by signal 19\<newline>'' \<and>
      sigchld_reap 101 (WStopped 19) s' = Inr s')"
proof -
  have h: "getjobpid (job_list fg_job) 101 = Some 0"
    unfolding fg_job_val by (simp add: getjobpid_def)
  have st: "state (job_list fg_job ! 0) \<noteq> ST"
    unfolding fg_job_val by simp
  have f: "101 = fgpid (job_list fg_job)"
    unfolding fg_job_val by (simp add: fgpid_def)
  have j: "jid (job_list fg_job ! 0) = 1"
    unfolding fg_job_val by simp
  have len: "0 < length (job_list fg_job)"
    unfolding fg_job_val by simp
  note d = ltoa_vals
  note t = stop_notification_once [OF h, of 20 20, unfolded j d]
  from t f obtain s1 where s1: "sigtstp_handler SIGTSTP fg_job = Inr s1"
      "sio s1 = sio fg_job @ ''Job ['' @ ''1'' @ ''] ('' @ ''101'' @ '') stopped by signal '' @ ''20'' @ ''\<newline>''"
      "job_list s1 = (job_list fg_job)[0 := (job_list fg_job ! 0)\<lparr>state := ST\<rparr>]"
      "sigchld_handler [(101, WStopped 20)] s1 = Inr s1"
    by blast
  note u = stop_notification_once [OF h, of 19 20, unfolded j d]
  from u st obtain s' where s': "sigchld_reap 101 (WStopped 19) fg_job = Inr s'"
      "sio s' = sio fg_job @ ''Job ['' @ ''1'' @ ''] ('' @ ''101'' @ '') stopped by signal '' @ ''19'' @ ''\<newline>''"
      "job_list s' = (job_list fg_job)[0 := (job_list fg_job ! 0)\<lparr>state := ST\<rparr>]"
    by blast
  have g': "getjobpid (job_list s') 101 = Some 0"
    unfolding s'(3) fg_job_val by (simp add: getjobpid_def)
  have "state (job_list s' ! 0) = ST" using len by (simp add: s'(3))
  with stop_notification_once [OF g', of 19 20] have again: "sigchld_reap 101 (WStopped 19) s' = Inr s'"
    by blast
  have "state (job_list s1 ! 0) = ST" using len by (simp add: s1(3))
  with h st f s1 s' again show ?thesis by auto
qed

subsection \<open>C8: \<^verbatim>\<open>addjob\<close> on a full table\<close>

text \<open>
  C8: with a positive \<open>p\<close> and no free slot, \<^verbatim>\<open>addjob\<close> returns 0, hands the warning to
  \<^verbatim>\<open>printf\<close> and changes neither a slot nor \<^verbatim>\<open>nextjid\<close>. The parent half of \<^verbatim>\<open>eval\<close> then
  sends the new process no signal and leaves the table as it was; when \<open>p\<close> is not a
  process id of the table, the process stays unknown to \<^verbatim>\<open>getjobpid\<close> and \<^verbatim>\<open>eval\<close> returns
  without waiting (for a background command after printing its line with job id 0).
\<close>

theorem addjob_full_table:
  assumes "0 < p" and "list_all (\<lambda>j. pid j \<noteq> 0) (job_list s)"
  shows "addjob p st cl s = (0, s\<lparr>stdio := stdio s @ ''Tried to create too many jobs\<newline>''\<rparr>) \<and>
         job_list (fst (eval_parent p bg cl s)) = job_list s \<and>
         nextjid (fst (eval_parent p bg cl s)) = nextjid s \<and>
         kills (fst (eval_parent p bg cl s)) = kills s \<and>
         stdio (fst (eval_parent p bg cl s)) = stdio s @ ''Tried to create too many jobs\<newline>'' \<and>
         (p \<notin> pid ` set (job_list s) \<longrightarrow>
            snd (eval_parent p bg cl s) = Returned \<and>
            getjobpid (job_list (fst (eval_parent p bg cl s))) p = None \<and>
            sio (fst (eval_parent p bg cl s)) =
              (if bg = 0 then sio s
               else sio s @ ''['' @ sio_ltoa 0 @ ''] ('' @ sio_ltoa p @ '') '' @ cl @ ''\<newline>''))"
proof -
  have add: "addjob p st cl s = (0, s\<lparr>stdio := stdio s @ ''Tried to create too many jobs\<newline>''\<rparr>)" for st
    using assms by (rule addjob_no_free)
  have fresh: "p \<notin> pid ` set (job_list s) \<Longrightarrow> first_slot (\<lambda>j. pid j = p) (job_list s) = None"
    by (auto simp: first_slot_None_iff)
  have fg: "p \<notin> pid ` set (job_list s) \<Longrightarrow> fgpid (job_list s) \<noteq> p"
    using assms(1) by (auto simp: fgpid_def split: option.splits dest!: first_slot_Some)
  show ?thesis
    using fresh fg by (auto simp: add eval_parent_def Let_def sio_puts_def sio_putl_def pid2jid_def getjobpid_def)
qed

theorem addjob_full_table_witness:
  "0 < (117::int) \<and> list_all (\<lambda>j. pid j \<noteq> 0) (job_list sixteen_jobs) \<and>
   117 \<notin> pid ` set (job_list sixteen_jobs) \<and>
   addjob 117 BG ''/bin/sleep 100 &'' sixteen_jobs =
     (0, sixteen_jobs\<lparr>stdio := stdio sixteen_jobs @ ''Tried to create too many jobs\<newline>''\<rparr>) \<and>
   job_list (fst (eval_parent 117 1 ''/bin/sleep 100 &'' sixteen_jobs)) = job_list sixteen_jobs \<and>
   nextjid (fst (eval_parent 117 1 ''/bin/sleep 100 &'' sixteen_jobs)) = nextjid sixteen_jobs \<and>
   kills (fst (eval_parent 117 1 ''/bin/sleep 100 &'' sixteen_jobs)) = kills sixteen_jobs \<and>
   snd (eval_parent 117 1 ''/bin/sleep 100 &'' sixteen_jobs) = Returned \<and>
   getjobpid (job_list (fst (eval_parent 117 1 ''/bin/sleep 100 &'' sixteen_jobs))) 117 = None \<and>
   sio (fst (eval_parent 117 1 ''/bin/sleep 100 &'' sixteen_jobs)) =
     sio sixteen_jobs @ ''[0] (117) /bin/sleep 100 &\<newline>''"
proof -
  have h1: "0 < (117::int)" by simp
  note t = addjob_full_table [OF h1 sixteen_jobs_full, of BG "''/bin/sleep 100 &''" 1,
      unfolded ltoa_vals]
  from t have a: "addjob 117 BG ''/bin/sleep 100 &'' sixteen_jobs =
     (0, sixteen_jobs\<lparr>stdio := stdio sixteen_jobs @ ''Tried to create too many jobs\<newline>''\<rparr>)"
    by (rule conjunct1)
  from t have b: "job_list (fst (eval_parent 117 1 ''/bin/sleep 100 &'' sixteen_jobs)) = job_list sixteen_jobs"
    "nextjid (fst (eval_parent 117 1 ''/bin/sleep 100 &'' sixteen_jobs)) = nextjid sixteen_jobs"
    "kills (fst (eval_parent 117 1 ''/bin/sleep 100 &'' sixteen_jobs)) = kills sixteen_jobs"
    by blast+
  from t sixteen_jobs_pids have c:
    "snd (eval_parent 117 1 ''/bin/sleep 100 &'' sixteen_jobs) = Returned"
    "getjobpid (job_list (fst (eval_parent 117 1 ''/bin/sleep 100 &'' sixteen_jobs))) 117 = None"
    "sio (fst (eval_parent 117 1 ''/bin/sleep 100 &'' sixteen_jobs)) =
       (if (1::int) = 0 then sio sixteen_jobs
        else sio sixteen_jobs @ ''['' @ ''0'' @ ''] ('' @ ''117'' @ '') '' @ ''/bin/sleep 100 &'' @ ''\<newline>'')"
    by blast+
  from c(3) have c3: "sio (fst (eval_parent 117 1 ''/bin/sleep 100 &'' sixteen_jobs)) =
     sio sixteen_jobs @ ''[0] (117) /bin/sleep 100 &\<newline>''"
    by simp
  from h1 sixteen_jobs_full sixteen_jobs_pids a b c(1,2) c3 show ?thesis by blast
qed

subsection \<open>C9: the interrupt handler leaves the job table alone\<close>

text \<open>
  C9: \<^verbatim>\<open>sigint_handler\<close> changes no slot, not \<^verbatim>\<open>nextjid\<close> and prints nothing; it sends
  the signal to the process group \<open>- fgpid\<close> when \<^verbatim>\<open>fgpid\<close> is not 0 and does nothing
  else.
\<close>

theorem sigint_handler_frame:
  "job_list (sigint_handler sig s) = job_list s \<and>
   nextjid (sigint_handler sig s) = nextjid s \<and>
   sio (sigint_handler sig s) = sio s \<and>
   stdio (sigint_handler sig s) = stdio s \<and>
   kills (sigint_handler sig s) =
     (if fgpid (job_list s) = 0 then kills s else kills s @ [(- fgpid (job_list s), sig)])"
  by (simp add: sigint_handler_def kill_def Let_def)

subsection \<open>C10: the child-status handler on a process the table does not hold\<close>

text \<open>
  C10: a state the shell reaches in which \<^verbatim>\<open>sigchld_handler\<close> reaps a process that has no
  slot and follows the null pointer \<^verbatim>\<open>getjobpid\<close> returned. After sixteen background
  launches the table is full; the seventeenth process (117) is forked all the same and
  \<^verbatim>\<open>addjob\<close> only prints its warning. When that process is killed or stopped, the handler
  reads \<^verbatim>\<open>job->jid\<close>, respectively \<^verbatim>\<open>job->state\<close>, with \<^verbatim>\<open>job == NULL\<close>.
\<close>

theorem sigchld_untracked_pid:
  "job_list seventeen_jobs = job_list sixteen_jobs \<and>
   stdio seventeen_jobs = stdio sixteen_jobs @ ''Tried to create too many jobs\<newline>'' \<and>
   getjobpid (job_list seventeen_jobs) 117 = None \<and>
   sigchld_handler [(117, WSignaled 9)] seventeen_jobs = Inl NullDeref \<and>
   sigchld_handler [(117, WStopped 19)] seventeen_jobs = Inl NullDeref"
proof -
  have add: "addjob 117 2 ''/bin/sleep 100 &'' sixteen_jobs =
      (0, sixteen_jobs\<lparr>stdio := stdio sixteen_jobs @ ''Tried to create too many jobs\<newline>''\<rparr>)"
    by (rule addjob_no_free [OF _ sixteen_jobs_full]) simp
  have tab: "job_list seventeen_jobs = job_list sixteen_jobs"
    by (simp add: seventeen_jobs_def eval_parent_fields add)
  have none: "getjobpid (job_list seventeen_jobs) 117 = None"
    using sixteen_jobs_pids by (auto simp: tab getjobpid_def first_slot_None_iff)
  show ?thesis
    using none tab by (simp add: sigchld_reap_def seventeen_jobs_def eval_parent_fields add)
qed

end
